theory Spec2Isabelle
  imports Complex_Main "HOL-Library.Monad_Syntax" "HOL-Library.AList"
begin

section \<open>Shallow embedding of gibbsAlign\_GLM.py\<close>

text \<open>
  The alternating fit/resample engine of \<^verbatim>\<open>src/code/gibbsAlign_GLM.py\<close>.
  Python exceptions (KeyError, IndexError, TypeError, ValueError, NameError,
  ZeroDivisionError) are the value \<open>None\<close> of an option type; Python integers are
  \<open>int\<close>; Python floats are modelled by \<open>real\<close> (exact arithmetic, no rounding, no
  nan or inf).  Dictionaries that are only read are maps; the dictionaries \<open>start\<close>
  and \<open>rev\<close>, which the sampler mutates and aliases, are association lists held in
  an explicit store.
\<close>

subsection \<open>Module constants\<close>

definition MWID :: nat where
  "MWID = 6"

definition SAMPLE :: real where
  "SAMPLE = 100"

definition AMINO :: string where
  "AMINO = ''ACDEFGHIKLMNPQRSTVWY''"

fun index_of :: "'a \<Rightarrow> 'a list \<Rightarrow> nat option" where
  "index_of x [] = None"
| "index_of x (y # ys) = (if x = y then Some 0 else map_option Suc (index_of x ys))"

text \<open>\<^verbatim>\<open>A2IND = {x: i for i, x in enumerate(AMINO)}\<close>; a missing key raises.\<close>

definition A2IND :: "char \<Rightarrow> nat option" where
  "A2IND c = index_of c AMINO"

subsection \<open>Python sequence indexing and slicing\<close>

text \<open>\<^verbatim>\<open>xs[i]\<close>: a negative index counts from the end, out of range raises.\<close>

definition py_get :: "'a list \<Rightarrow> int \<Rightarrow> 'a option" where
  "py_get xs i =
     (let n = int (length xs); k = (if i < 0 then n + i else i)
      in if 0 \<le> k \<and> k < n then Some (xs ! nat k) else None)"

text \<open>A slice bound is shifted by the length when negative and then clamped.\<close>

definition py_bound :: "nat \<Rightarrow> int \<Rightarrow> nat" where
  "py_bound n i = (if i < 0 then nat (int n + i) else min n (nat i))"

definition py_slice :: "'a list \<Rightarrow> int \<Rightarrow> int \<Rightarrow> 'a list" where
  "py_slice xs a b = take (py_bound (length xs) b - py_bound (length xs) a)
                          (drop (py_bound (length xs) a) xs)"

definition py_slice_to :: "'a list \<Rightarrow> int \<Rightarrow> 'a list" where
  "py_slice_to xs b = take (py_bound (length xs) b) xs"

definition py_slice_from :: "'a list \<Rightarrow> int \<Rightarrow> 'a list" where
  "py_slice_from xs a = drop (py_bound (length xs) a) xs"

text \<open>\<^verbatim>\<open>range(n)\<close> for a Python integer \<open>n\<close>: empty when \<open>n \<le> 0\<close>.\<close>

definition py_range :: "int \<Rightarrow> int list" where
  "py_range n = map int [0..<nat n]"

type_synonym protein = string
type_synonym pwm = "real list list"
type_synonym matrix = "int list list"
type_synonym dict = "(protein \<times> int) list"

subsection \<open>formGLM\_fullX (lines 836-881)\<close>

text \<open>\<^verbatim>\<open>cur_x = [0] * numAAs; if aa < numAAs: cur_x[aa] = 1\<close>\<close>

definition onehot :: "nat \<Rightarrow> nat \<Rightarrow> int list" where
  "onehot numAAs aa =
     (if aa < numAAs then (replicate numAAs 0)[aa := 1] else replicate numAAs 0)"

text \<open>The loop \<^verbatim>\<open>for i in aa_pos\<close> that builds the row \<open>x\<close> of one protein.\<close>

fun encode_core :: "string \<Rightarrow> int list \<Rightarrow> nat \<Rightarrow> int list option" where
  "encode_core core_seq [] numAAs = Some []"
| "encode_core core_seq (i # aa_pos) numAAs =
     do { c \<leftarrow> py_get core_seq i;
          aa \<leftarrow> A2IND c;
          x \<leftarrow> encode_core core_seq aa_pos numAAs;
          Some (onehot numAAs aa @ x) }"

text \<open>The loop \<^verbatim>\<open>for p in obsGrps[g]\<close>; the state is \<open>(X[j], rowNum)\<close>.\<close>

fun fullX_group ::
  "(protein \<rightharpoonup> string) \<Rightarrow> int list \<Rightarrow> nat \<Rightarrow> string \<Rightarrow> protein list \<Rightarrow>
   matrix \<times> int \<Rightarrow> (matrix \<times> int) option" where
  "fullX_group core aa_pos numAAs modelType [] (Xj, rowNum) = Some (Xj, rowNum)"
| "fullX_group core aa_pos numAAs modelType (p # ps) (Xj, rowNum) =
     do { core_seq \<leftarrow> core p;
          x \<leftarrow> encode_core core_seq aa_pos numAAs;
          if modelType = ''classifier''
          then fullX_group core aa_pos numAAs modelType ps (Xj @ replicate 4 x, rowNum + 4)
          else if modelType = ''regressor''
          then fullX_group core aa_pos numAAs modelType ps (Xj @ [x], rowNum + 1)
          else fullX_group core aa_pos numAAs modelType ps (Xj, rowNum) }"

text \<open>
  The loop \<^verbatim>\<open>for g in obsGrps.keys()\<close>; \<open>obsGrps\<close> is the dictionary in its
  (fixed) key order, the state is \<open>(X[j], rowNum, grpInd)\<close>.
\<close>

fun fullX_groups ::
  "(protein \<rightharpoonup> string) \<Rightarrow> int list \<Rightarrow> nat \<Rightarrow> string \<Rightarrow> (string \<times> protein list) list \<Rightarrow>
   matrix \<times> int \<times> (string \<rightharpoonup> int \<times> int) \<Rightarrow>
   (matrix \<times> int \<times> (string \<rightharpoonup> int \<times> int)) option" where
  "fullX_groups core aa_pos numAAs modelType [] st = Some st"
| "fullX_groups core aa_pos numAAs modelType ((g, ps) # grps) (Xj, rowNum, grpInd) =
     do { (Xj', rowNum') \<leftarrow> fullX_group core aa_pos numAAs modelType ps (Xj, rowNum);
          fullX_groups core aa_pos numAAs modelType grps
            (Xj', rowNum', grpInd(g \<mapsto> (rowNum, rowNum' - 1))) }"

text \<open>The loop \<^verbatim>\<open>for j in range(MWID)\<close>; \<open>X\<close> is the list of the \<open>X[j]\<close> built so far.\<close>

fun fullX_positions ::
  "(protein \<rightharpoonup> string) \<Rightarrow> (nat \<times> int list) list \<Rightarrow> nat \<Rightarrow> string \<Rightarrow>
   (string \<times> protein list) list \<Rightarrow> nat list \<Rightarrow>
   matrix list \<times> (string \<rightharpoonup> int \<times> int) \<Rightarrow>
   (matrix list \<times> (string \<rightharpoonup> int \<times> int)) option" where
  "fullX_positions core edges numAAs modelType obsGrps [] st = Some st"
| "fullX_positions core edges numAAs modelType obsGrps (j # js) (X, grpInd) =
     do { aa_pos \<leftarrow> map_of edges j;
          (Xj, rowNum, grpInd') \<leftarrow>
            fullX_groups core aa_pos numAAs modelType obsGrps ([], 0, grpInd);
          fullX_positions core edges numAAs modelType obsGrps js (X @ [Xj], grpInd') }"

definition formGLM_fullX ::
  "(protein \<rightharpoonup> string) \<Rightarrow> (nat \<times> int list) list \<Rightarrow> protein list \<Rightarrow>
   (string \<times> protein list) list \<Rightarrow> nat \<Rightarrow> string \<Rightarrow>
   (matrix list \<times> (string \<rightharpoonup> int \<times> int)) option" where
  "formGLM_fullX core edges uniqueProteins obsGrps numAAs modelType =
     fullX_positions core edges numAAs modelType obsGrps [0..<MWID] ([], Map.empty)"

text \<open>The call of \<^verbatim>\<open>main\<close> (line 1636) leaves \<open>numAAs = 19\<close> and the classifier mode.\<close>

definition formGLM_fullX_default ::
  "(protein \<rightharpoonup> string) \<Rightarrow> (nat \<times> int list) list \<Rightarrow> protein list \<Rightarrow>
   (string \<times> protein list) list \<Rightarrow> (matrix list \<times> (string \<rightharpoonup> int \<times> int)) option" where
  "formGLM_fullX_default core edges uniqueProteins obsGrps =
     formGLM_fullX core edges uniqueProteins obsGrps 19 ''classifier''"

subsection \<open>formGLM\_trainX, formGLM\_testX, formGLM\_Y (lines 908-955)\<close>

text \<open>
  \<^verbatim>\<open>np.delete(X[j], range(startInd_ho, endIndex_ho+1), 0)\<close>: the rows whose index lies
  in the closed range are removed; indices outside the matrix select nothing.
\<close>

definition delete_rows :: "'a list \<Rightarrow> int \<Rightarrow> int \<Rightarrow> 'a list" where
  "delete_rows rows lo hi =
     map snd (filter (\<lambda>(i, r). \<not> (lo \<le> int i \<and> int i \<le> hi)) (enumerate 0 rows))"

fun for_positions :: "(nat \<Rightarrow> 'a option) \<Rightarrow> nat list \<Rightarrow> 'a list option" where
  "for_positions f [] = Some []"
| "for_positions f (j # js) =
     do { y \<leftarrow> f j; ys \<leftarrow> for_positions f js; Some (y # ys) }"

text \<open>\<^verbatim>\<open>X[j]\<close> on a dictionary keyed by position that is held as a list.\<close>

definition at_pos :: "'a list \<Rightarrow> nat \<Rightarrow> 'a option" where
  "at_pos X j = (if j < length X then Some (X ! j) else None)"

definition formGLM_trainX :: "matrix list \<Rightarrow> int \<Rightarrow> int \<Rightarrow> matrix list option" where
  "formGLM_trainX X startInd_ho endIndex_ho =
     for_positions (\<lambda>j. do { Xj \<leftarrow> at_pos X j; Some (delete_rows Xj startInd_ho endIndex_ho) })
       [0..<MWID]"

text \<open>
  \<^verbatim>\<open>formGLM_testX\<close> in classifier mode, the default that every caller leaves in
  place: the four rows \<^verbatim>\<open>X[j][4*index:4*index+4]\<close> of each position.
\<close>

definition formGLM_testX :: "matrix list \<Rightarrow> int \<Rightarrow> matrix list option" where
  "formGLM_testX X index =
     for_positions (\<lambda>j. do { Xj \<leftarrow> at_pos X j; Some (py_slice Xj (4 * index) (4 * index + 4)) })
       [0..<MWID]"

definition formGLM_Y :: "'a list \<Rightarrow> int list list" where
  "formGLM_Y keysToUse =
     map (\<lambda>j. concat (replicate (length keysToUse) [0, 1, 2, 3])) [0..<MWID]"

text \<open>
  Lines 1240-1241: \<^verbatim>\<open>uniqueProteins[:startInd_ho/4] + uniqueProteins[endIndex_ho/4+1:]\<close>
  (Python 2 integer division rounds down, as \<open>div\<close> does).
\<close>

definition trainProteins :: "protein list \<Rightarrow> int \<Rightarrow> int \<Rightarrow> protein list" where
  "trainProteins uniqueProteins startInd_ho endIndex_ho =
     py_slice_to uniqueProteins (startInd_ho div 4) @
     py_slice_from uniqueProteins (endIndex_ho div 4 + 1)"

subsection \<open>sampleStartPosGLM: enumeration and decoding (lines 1101-1121)\<close>

text \<open>
  The registers in the order of the loops \<^verbatim>\<open>for r in range(2): for s in
  range(seqWid-mWid+1)\<close>, as pairs \<open>(s, r)\<close>.
\<close>

definition candidates :: "int \<Rightarrow> int \<Rightarrow> (int \<times> int) list" where
  "candidates seqWid mWid =
     concat (map (\<lambda>r. map (\<lambda>s. (s, r)) (py_range (seqWid - mWid + 1))) [0, 1])"

text \<open>
  Lines 1118-1121 on the drawn index \<open>s\<close> and \<open>n = len(lls)\<close>:
  \<^verbatim>\<open>r = 0; if s >= n/2: r = 1; s = s % (n/2)\<close>.  The result is \<open>(s, r)\<close>; a modulus
  of zero is the exception.
\<close>

definition decode :: "nat \<Rightarrow> nat \<Rightarrow> (int \<times> int) option" where
  "decode s n =
     (let r = (if s \<ge> n div 2 then 1 else 0)
      in if n div 2 = 0 then None else Some (int (s mod (n div 2)), r))"


subsection \<open>External collaborators\<close>

text \<open>
  What the module calls but does not define: \<^verbatim>\<open>matrix_compl\<close> of matAlignLib (not
  among the sources), scikit-learn's \<^verbatim>\<open>LogisticRegression(...).fit\<close> and
  \<^verbatim>\<open>predict_proba\<close>, numpy's global random generator (\<^verbatim>\<open>np.random.seed\<close>,
  \<^verbatim>\<open>randint\<close>, \<^verbatim>\<open>choice\<close>, with the generator state \<open>'r\<close> threaded through),
  \<^verbatim>\<open>scipy.stats.pearsonr\<close> and \<^verbatim>\<open>sklearn.metrics.mean_squared_error\<close>.  They
  are parameters of the model; \<open>'m\<close> is the type of a fitted classifier.
\<close>

datatype trainW = Classifier "real list" | Regressor "real list list"

record ('m, 'r) externals =
  matrix_compl :: "pwm \<Rightarrow> pwm"
  fit :: "matrix \<Rightarrow> int list \<Rightarrow> trainW \<Rightarrow> 'm option"
  predict_proba :: "'m \<Rightarrow> matrix \<Rightarrow> real list list option"
  seed :: "nat option \<Rightarrow> 'r"
  randint :: "int \<Rightarrow> int \<Rightarrow> 'r \<Rightarrow> int \<times> 'r"
  choice :: "real list \<Rightarrow> 'r \<Rightarrow> nat \<times> 'r"
  pearsonr :: "real list \<Rightarrow> real list \<Rightarrow> real option"
  mean_squared_error :: "real list \<Rightarrow> real list \<Rightarrow> real option"

subsection \<open>initStarts (lines 660-675)\<close>

text \<open>
  \<open>fixedStarts\<close> maps a protein to its pinned \<open>(start, rev)\<close>.  The loop
  \<^verbatim>\<open>for k in uniqueProteins\<close> with the state \<open>(start, rev)\<close> and the generator;
  \<^verbatim>\<open>randint\<close> raises when \<open>high \<le> low\<close>.
\<close>

fun initStarts_loop ::
  "('m, 'r) externals \<Rightarrow> (protein \<rightharpoonup> pwm) \<Rightarrow> int \<Rightarrow> (protein \<rightharpoonup> int \<times> int) \<Rightarrow>
   protein list \<Rightarrow> dict \<times> dict \<times> 'r \<Rightarrow> (dict \<times> dict \<times> 'r) option" where
  "initStarts_loop ext pwms mWid fixedStarts [] st = Some st"
| "initStarts_loop ext pwms mWid fixedStarts (k # ks) (start, rv, g) =
     (case fixedStarts k of
        None \<Rightarrow>
          do { let (r, g1) = randint ext 0 2 g;
               m \<leftarrow> pwms k;
               let high = int (length m) - mWid + 1;
               if high \<le> 0 then None
               else do { let (s, g2) = randint ext 0 high g1;
                         initStarts_loop ext pwms mWid fixedStarts ks
                           (AList.update k s start, AList.update k r rv, g2) } }
      | Some (fs, fr) \<Rightarrow>
          initStarts_loop ext pwms mWid fixedStarts ks
            (AList.update k fs start, AList.update k fr rv, g))"

definition initStarts ::
  "('m, 'r) externals \<Rightarrow> protein list \<Rightarrow> (protein \<rightharpoonup> pwm) \<Rightarrow> int \<Rightarrow>
   (protein \<rightharpoonup> int \<times> int) \<Rightarrow> 'r \<Rightarrow> (dict \<times> dict \<times> 'r) option" where
  "initStarts ext uniqueProteins pwms mWid fixedStarts g =
     initStarts_loop ext pwms mWid fixedStarts uniqueProteins ([], [], g)"

subsection \<open>formGLM\_trainW, formGLM\_testW (lines 958-1024)\<close>

text \<open>
  Lines 972-978 (and 1017-1023): the protein's matrix, complemented when
  \<^verbatim>\<open>rev[protein] == 1\<close>, and its rows \<^verbatim>\<open>pwm[j+start[protein]]\<close> for the window.
\<close>

definition oriented_rows ::
  "('m, 'r) externals \<Rightarrow> (protein \<rightharpoonup> pwm) \<Rightarrow> dict \<Rightarrow> dict \<Rightarrow> protein \<Rightarrow> real list list option" where
  "oriented_rows ext pwms start rv protein =
     do { r \<leftarrow> map_of rv protein;
          m \<leftarrow> pwms protein;
          s \<leftarrow> map_of start protein;
          for_positions (\<lambda>j. py_get (if r = 1 then matrix_compl ext m else m) (int j + s))
            [0..<MWID] }"

text \<open>
  Classifier mode: the rows of all proteins at position \<open>j\<close> end to end (the
  placeholder \<^verbatim>\<open>{}\<close> in front is dropped by \<^verbatim>\<open>W[j][1:len(W[j])]\<close>, which raises on
  the bare dictionary when there is no protein), divided by their sum.  A zero sum
  gives nan or inf in numpy, which \<open>real\<close> does not hold: it is \<open>None\<close> here.
  Regressor mode: one vector per base over the proteins.  Any other mode returns
  the empty dictionary.
\<close>

definition formGLM_trainW ::
  "('m, 'r) externals \<Rightarrow> (protein \<rightharpoonup> pwm) \<Rightarrow> protein list \<Rightarrow> dict \<Rightarrow> dict \<Rightarrow> string \<Rightarrow>
   trainW list option" where
  "formGLM_trainW ext pwms uniqueProteins start rv modelType =
     do { weights \<leftarrow> those (map (oriented_rows ext pwms start rv) uniqueProteins);
          if modelType = ''classifier''
          then for_positions
                 (\<lambda>j. do { rows \<leftarrow> those (map (\<lambda>w. at_pos w j) weights);
                           if uniqueProteins = [] then None
                           else if sum_list (concat rows) = 0 then None
                           else Some (Classifier
                                  (map (\<lambda>x. x / sum_list (concat rows)) (concat rows))) })
                 [0..<MWID]
          else if modelType = ''regressor''
          then for_positions
                 (\<lambda>j. do { rows \<leftarrow> those (map (\<lambda>w. at_pos w j) weights);
                           cols \<leftarrow> those (map (\<lambda>b. those (map (\<lambda>row. py_get row b) rows))
                                           [0, 1, 2, 3]);
                           Some (Regressor cols) })
                 [0..<MWID]
          else Some [] }"

definition formGLM_testW ::
  "('m, 'r) externals \<Rightarrow> (protein \<rightharpoonup> pwm) \<Rightarrow> int \<Rightarrow> protein list \<Rightarrow> dict \<Rightarrow> dict \<Rightarrow>
   real list list option" where
  "formGLM_testW ext pwms index uniqueProteins start rv =
     do { protein \<leftarrow> py_get uniqueProteins index;
          oriented_rows ext pwms start rv protein }"

subsection \<open>createGLMModel, computeGLMLoglikelihood (lines 1027-1070)\<close>

definition createGLMModel ::
  "('m, 'r) externals \<Rightarrow> matrix list \<Rightarrow> int list list \<Rightarrow> trainW list \<Rightarrow> 'm list option" where
  "createGLMModel ext trainX trainY trainW =
     for_positions (\<lambda>j. do { x \<leftarrow> at_pos trainX j;
                             y \<leftarrow> at_pos trainY j;
                             w \<leftarrow> at_pos trainW j;
                             fit ext x y w })
       [0..<MWID]"

text \<open>Python 2 \<^verbatim>\<open>int(round(x))\<close>: halves are rounded away from zero.\<close>

definition py_round :: "real \<Rightarrow> int" where
  "py_round x = (if 0 \<le> x then \<lfloor>x + 1 / 2\<rfloor> else \<lceil>x - 1 / 2\<rceil>)"

text \<open>
  \<^verbatim>\<open>np.log\<close> of a probability; at zero or below numpy gives -inf or nan, which
  \<open>real\<close> does not hold: it is \<open>None\<close> here.
\<close>

definition np_log :: "real \<Rightarrow> real option" where
  "np_log x = (if 0 < x then Some (ln x) else None)"

text \<open>\<^verbatim>\<open>np.dot\<close> of two vectors raises when their lengths differ.\<close>

definition np_dot :: "real list \<Rightarrow> real list \<Rightarrow> real option" where
  "np_dot xs ys =
     (if length xs = length ys then Some (sum_list (map2 (*) xs ys)) else None)"

definition computeGLMLoglikelihood ::
  "('m, 'r) externals \<Rightarrow> matrix list \<Rightarrow> real list list \<Rightarrow> 'm list \<Rightarrow> real option" where
  "computeGLMLoglikelihood ext testX testW model =
     do { ll \<leftarrow> for_positions
                 (\<lambda>j. do { m \<leftarrow> at_pos model j;
                           x \<leftarrow> at_pos testX j;
                           probs \<leftarrow> predict_proba ext m x;
                           prediction \<leftarrow> py_get probs 0;
                           w \<leftarrow> at_pos testW j;
                           logs \<leftarrow> those (map np_log prediction);
                           np_dot logs (map (\<lambda>x. real_of_int (py_round (x * SAMPLE))) w) })
                 [0..<MWID];
          Some (sum_list ll) }"

subsection \<open>sampleStartPosGLM (lines 1081-1123)\<close>

text \<open>
  The log-likelihoods of all candidate registers in enumeration order, their
  maximum subtracted and exponentiated; one index is drawn with the normalised
  values as probabilities and decoded.  \<^verbatim>\<open>lls.max()\<close> raises on the empty array.
  The result is \<open>(s, r, lls)\<close> and the generator.
\<close>

definition sampleStartPosGLM ::
  "('m, 'r) externals \<Rightarrow> matrix list \<Rightarrow> protein list \<Rightarrow> int \<Rightarrow> (protein \<rightharpoonup> pwm) \<Rightarrow>
   (nat \<times> int list) list \<Rightarrow> 'm list \<Rightarrow> 'r \<Rightarrow> ((int \<times> int \<times> real list) \<times> 'r) option" where
  "sampleStartPosGLM ext testX uniqueProteins index pwms edges model g =
     do { holdout \<leftarrow> py_get uniqueProteins index;
          m \<leftarrow> pwms holdout;
          let seqWid = int (length m);
          let mWid = int (length edges);
          lls \<leftarrow> those (map (\<lambda>(s, r).
                    do { testW \<leftarrow> formGLM_testW ext pwms index uniqueProteins
                                    [(holdout, s)] [(holdout, r)];
                         computeGLMLoglikelihood ext testX testW model })
                  (candidates seqWid mWid));
          if lls = [] then None
          else do { let lls = map (\<lambda>x. exp (x - fold max (tl lls) (hd lls))) lls;
                    let (s, g') = choice ext (map (\<lambda>x. x / sum_list lls) lls) g;
                    if length lls \<le> s then None
                    else do { (s', r) \<leftarrow> decode s (length lls);
                              Some ((s', r, lls), g') } } }"

subsection \<open>form\_model, computePC\_agree, compute\_MSE (lines 1126-1163)\<close>

definition form_model ::
  "('m, 'r) externals \<Rightarrow> matrix list \<Rightarrow> protein list \<Rightarrow> (protein \<rightharpoonup> pwm) \<Rightarrow> dict \<Rightarrow> dict \<Rightarrow>
   'm list option" where
  "form_model ext fullX uniqueProteins pwms start rv =
     do { W \<leftarrow> formGLM_trainW ext pwms uniqueProteins start rv ''classifier'';
          createGLMModel ext fullX (formGLM_Y uniqueProteins) W }"

text \<open>
  The body shared by the two diagnostics for position \<open>j\<close> and the \<open>i\<close>-th protein
  \<open>p\<close>: the predicted distribution \<^verbatim>\<open>pred[0]\<close> and the oriented row \<^verbatim>\<open>true\<close>.
\<close>

definition pred_and_true ::
  "('m, 'r) externals \<Rightarrow> 'm list \<Rightarrow> (protein \<rightharpoonup> pwm) \<Rightarrow> dict \<Rightarrow> dict \<Rightarrow> matrix list \<Rightarrow>
   nat \<Rightarrow> nat \<times> protein \<Rightarrow> (real list \<times> real list) option" where
  "pred_and_true ext model pwms start rv fullX j ip =
     do { testX \<leftarrow> formGLM_testX fullX (int (fst ip));
          m \<leftarrow> at_pos model j;
          x \<leftarrow> at_pos testX j;
          pred \<leftarrow> predict_proba ext m x;
          w \<leftarrow> pwms (snd ip);
          r \<leftarrow> map_of rv (snd ip);
          s \<leftarrow> map_of start (snd ip);
          true \<leftarrow> py_get (if r = 1 then matrix_compl ext w else w) (int j + s);
          pred0 \<leftarrow> py_get pred 0;
          Some (pred0, true) }"

text \<open>\<^verbatim>\<open>match/float(len(uniqueProteins))\<close> raises when there is no protein.\<close>

definition computePC_agree ::
  "('m, 'r) externals \<Rightarrow> 'm list \<Rightarrow> protein list \<Rightarrow> (protein \<rightharpoonup> pwm) \<Rightarrow> dict \<Rightarrow> dict \<Rightarrow>
   matrix list \<Rightarrow> real list option" where
  "computePC_agree ext model uniqueProteins pwms start rv fullX =
     for_positions
       (\<lambda>j. do { ms \<leftarrow> those (map (\<lambda>ip.
                         do { (pred0, true) \<leftarrow> pred_and_true ext model pwms start rv fullX j ip;
                              c \<leftarrow> pearsonr ext pred0 true;
                              Some (if c \<ge> 1 / 2 then 1 else 0) })
                       (enumerate 0 uniqueProteins));
                 if uniqueProteins = [] then None
                 else Some (sum_list ms / real (length uniqueProteins)) })
       [0..<MWID]"

definition compute_MSE ::
  "('m, 'r) externals \<Rightarrow> 'm list \<Rightarrow> protein list \<Rightarrow> (protein \<rightharpoonup> pwm) \<Rightarrow> dict \<Rightarrow> dict \<Rightarrow>
   matrix list \<Rightarrow> real list option" where
  "compute_MSE ext model uniqueProteins pwms start rv fullX =
     for_positions
       (\<lambda>j. do { ms \<leftarrow> those (map (\<lambda>ip.
                         do { (pred0, true) \<leftarrow> pred_and_true ext model pwms start rv fullX j ip;
                              mean_squared_error ext true pred0 })
                       (enumerate 0 uniqueProteins));
                 if uniqueProteins = [] then None
                 else Some (sum_list ms / real (length uniqueProteins)) })
       [0..<MWID]"

subsection \<open>gibbsSampleGLM (lines 1165-1318)\<close>

text \<open>
  The dictionaries \<open>start\<close> and \<open>rev\<close> are objects in a store (a list of
  dictionaries); a variable holds an index into it.  Lines 1249-1260, the loop
  \<^verbatim>\<open>for p in obsGrps[grpID]\<close>, with the state \<open>(store, index_p, valuesChanged)\<close> and
  the generator; \<open>vstart\<close> and \<open>vrev\<close> are the values of the variables \<open>start\<close>
  and \<open>rev\<close>.
\<close>

fun resample_group ::
  "('m, 'r) externals \<Rightarrow> (protein \<rightharpoonup> pwm) \<Rightarrow> (nat \<times> int list) list \<Rightarrow> protein list \<Rightarrow>
   matrix list \<Rightarrow> (protein \<rightharpoonup> int \<times> int) \<Rightarrow> 'm list \<Rightarrow> nat \<Rightarrow> nat \<Rightarrow> protein list \<Rightarrow>
   dict list \<times> int \<times> int \<times> 'r \<Rightarrow> (dict list \<times> int \<times> int \<times> 'r) option" where
  "resample_group ext pwms edges uniqueProteins fullX fixedStarts model vstart vrev [] st =
     Some st"
| "resample_group ext pwms edges uniqueProteins fullX fixedStarts model vstart vrev (p # ps)
     (store, index_p, valuesChanged, g) =
     (if fixedStarts p \<noteq> None
      then resample_group ext pwms edges uniqueProteins fullX fixedStarts model vstart vrev ps
             (store, index_p + 1, valuesChanged, g)
      else do { testX \<leftarrow> formGLM_testX fullX index_p;
                ((s, r, lls), g') \<leftarrow>
                  sampleStartPosGLM ext testX uniqueProteins index_p pwms edges model g;
                start \<leftarrow> at_pos store vstart;
                s0 \<leftarrow> map_of start p;
                changed \<leftarrow> (if s \<noteq> s0 then Some True
                            else do { rv \<leftarrow> at_pos store vrev;
                                      r0 \<leftarrow> map_of rv p;
                                      Some (r \<noteq> r0) });
                let store1 = store[vstart := AList.update p s start];
                rv \<leftarrow> at_pos store1 vrev;
                let store2 = store1[vrev := AList.update p r rv];
                resample_group ext pwms edges uniqueProteins fullX fixedStarts model vstart vrev
                  ps (store2, index_p + 1,
                      if changed then valuesChanged + 1 else valuesChanged, g') })"

text \<open>
  Lines 1236-1260, the loop \<^verbatim>\<open>for grpID in obsGrps.keys()\<close>, with the state
  \<open>(store, valuesChanged, model)\<close> and the generator.  The variable \<open>model\<close> is
  unbound (\<open>None\<close>) until the first group has been fitted.
\<close>

fun sweep_groups ::
  "('m, 'r) externals \<Rightarrow> (protein \<rightharpoonup> pwm) \<Rightarrow> (nat \<times> int list) list \<Rightarrow> protein list \<Rightarrow>
   matrix list \<Rightarrow> (string \<rightharpoonup> int \<times> int) \<Rightarrow> (protein \<rightharpoonup> int \<times> int) \<Rightarrow> nat \<Rightarrow> nat \<Rightarrow>
   (string \<times> protein list) list \<Rightarrow>
   dict list \<times> int \<times> 'm list option \<times> 'r \<Rightarrow>
   (dict list \<times> int \<times> 'm list option \<times> 'r) option" where
  "sweep_groups ext pwms edges uniqueProteins fullX grpInd fixedStarts vstart vrev [] st =
     Some st"
| "sweep_groups ext pwms edges uniqueProteins fullX grpInd fixedStarts vstart vrev
     ((grpID, ps) # grps) (store, valuesChanged, model, g) =
     do { (startInd_ho, endIndex_ho) \<leftarrow> grpInd grpID;
          trainX \<leftarrow> formGLM_trainX fullX startInd_ho endIndex_ho;
          start \<leftarrow> at_pos store vstart;
          rv \<leftarrow> at_pos store vrev;
          trainW \<leftarrow> formGLM_trainW ext pwms
                      (trainProteins uniqueProteins startInd_ho endIndex_ho) start rv
                      ''classifier'';
          model' \<leftarrow> createGLMModel ext trainX
                      (formGLM_Y (trainProteins uniqueProteins startInd_ho endIndex_ho)) trainW;
          (store', index_p, valuesChanged', g') \<leftarrow>
            resample_group ext pwms edges uniqueProteins fullX fixedStarts model' vstart vrev ps
              (store, startInd_ho div 4, valuesChanged, g);
          sweep_groups ext pwms edges uniqueProteins fullX grpInd fixedStarts vstart vrev grps
            (store', valuesChanged', Some model', g') }"

text \<open>
  Lines 1264-1268: the log-likelihood of all proteins under the model left by
  the last group of the sweep.
\<close>

definition full_loglik ::
  "('m, 'r) externals \<Rightarrow> matrix list \<Rightarrow> protein list \<Rightarrow> (protein \<rightharpoonup> pwm) \<Rightarrow> dict \<Rightarrow> dict \<Rightarrow>
   'm list option \<Rightarrow> real option" where
  "full_loglik ext fullX uniqueProteins pwms start rv model =
     do { lls \<leftarrow> those (map (\<lambda>ip.
                    do { testX \<leftarrow> formGLM_testX fullX (int (fst ip));
                         testW \<leftarrow> formGLM_testW ext pwms (int (fst ip)) uniqueProteins start rv;
                         m \<leftarrow> model;
                         computeGLMLoglikelihood ext testX testW m })
                  (enumerate 0 uniqueProteins));
          Some (sum_list lls) }"

text \<open>
  Lines 1287-1293: the number of the last \<open>min(llLen, 5)\<close> entries of \<open>llsAll\<close>
  that differ from \<open>ll\<close> by less than \<open>tol = 1.0\<close>.
\<close>

definition nIterLTtol :: "real \<Rightarrow> real list \<Rightarrow> nat" where
  "nIterLTtol ll llsAll =
     length (filter (\<lambda>i. \<bar>ll - llsAll ! (length llsAll - i - 1)\<bar> < 1)
               [0..<min (length llsAll) 5])"

text \<open>The local variables of the loop; the four dictionary variables hold store indices.\<close>

record ('m, 'r) chain_state =
  store :: "dict list"
  v_start :: nat
  v_rev :: nat
  v_bestStart :: nat
  v_bestRev :: nat
  bestll :: real
  llsAll :: "real list"
  nIters :: int
  converged :: bool
  model :: "'m list option"
  rng :: 'r

text \<open>The body of the \<^verbatim>\<open>while\<close> loop, lines 1233-1296 (the printing of \<open>verbose\<close> left out).\<close>

definition sweep ::
  "('m, 'r) externals \<Rightarrow> (protein \<rightharpoonup> pwm) \<Rightarrow> (nat \<times> int list) list \<Rightarrow> protein list \<Rightarrow>
   (string \<times> protein list) list \<Rightarrow> matrix list \<Rightarrow> (string \<rightharpoonup> int \<times> int) \<Rightarrow>
   (protein \<rightharpoonup> int \<times> int) \<Rightarrow> ('m, 'r) chain_state \<Rightarrow> ('m, 'r) chain_state option" where
  "sweep ext pwms edges uniqueProteins obsGrps fullX grpInd fixedStarts st =
     do { (store', valuesChanged, model', g') \<leftarrow>
            sweep_groups ext pwms edges uniqueProteins fullX grpInd fixedStarts
              (v_start st) (v_rev st) obsGrps (store st, 0, model st, rng st);
          start \<leftarrow> at_pos store' (v_start st);
          rv \<leftarrow> at_pos store' (v_rev st);
          ll \<leftarrow> full_loglik ext fullX uniqueProteins pwms start rv model';
          Some (st\<lparr>store := store', model := model', rng := g',
                   nIters := nIters st + 1,
                   bestll := (if ll > bestll st then ll else bestll st),
                   v_bestStart := (if ll > bestll st then v_start st else v_bestStart st),
                   v_bestRev := (if ll > bestll st then v_rev st else v_bestRev st),
                   converged := (if nIterLTtol ll (llsAll st) = 5 then True else converged st),
                   llsAll := llsAll st @ [ll]\<rparr>) }"

function gibbs_loop ::
  "('m, 'r) externals \<Rightarrow> (protein \<rightharpoonup> pwm) \<Rightarrow> (nat \<times> int list) list \<Rightarrow> protein list \<Rightarrow>
   (string \<times> protein list) list \<Rightarrow> matrix list \<Rightarrow> (string \<rightharpoonup> int \<times> int) \<Rightarrow>
   (protein \<rightharpoonup> int \<times> int) \<Rightarrow> int \<Rightarrow> ('m, 'r) chain_state \<Rightarrow> ('m, 'r) chain_state option" where
  "gibbs_loop ext pwms edges uniqueProteins obsGrps fullX grpInd fixedStarts maxIters st =
     (if nIters st < maxIters \<and> \<not> converged st
      then (case sweep ext pwms edges uniqueProteins obsGrps fullX grpInd fixedStarts st of
              None \<Rightarrow> None
            | Some st' \<Rightarrow>
                gibbs_loop ext pwms edges uniqueProteins obsGrps fullX grpInd fixedStarts
                  maxIters st')
      else Some st)"
  by pat_completeness auto
termination
proof (relation "measure (\<lambda>(ext, pwms, edges, uniqueProteins, obsGrps, fullX, grpInd,
                            fixedStarts, maxIters, st). nat (maxIters - nIters st))")
  show "wf (measure (\<lambda>(ext :: ('m, 'r) externals, pwms :: protein \<rightharpoonup> pwm,
                       edges :: (nat \<times> int list) list, uniqueProteins :: protein list,
                       obsGrps :: (string \<times> protein list) list, fullX :: matrix list,
                       grpInd :: string \<rightharpoonup> int \<times> int,
                       fixedStarts :: protein \<rightharpoonup> int \<times> int, maxIters :: int,
                       st :: ('m, 'r) chain_state). nat (maxIters - nIters st)))"
    by simp
next
  fix ext :: "('m, 'r) externals" and pwms edges uniqueProteins obsGrps fullX grpInd
    fixedStarts maxIters and st st' :: "('m, 'r) chain_state"
  assume "nIters st < maxIters \<and> \<not> converged st"
    and "sweep ext pwms edges uniqueProteins obsGrps fullX grpInd fixedStarts st = Some st'"
  then have "nIters st' = nIters st + 1" "nIters st < maxIters"
    by (auto simp: sweep_def split: Option.bind_splits prod.splits)
  then show "((ext, pwms, edges, uniqueProteins, obsGrps, fullX, grpInd, fixedStarts,
               maxIters, st'),
              (ext, pwms, edges, uniqueProteins, obsGrps, fullX, grpInd, fixedStarts,
               maxIters, st))
             \<in> measure (\<lambda>(ext, pwms, edges, uniqueProteins, obsGrps, fullX, grpInd,
                           fixedStarts, maxIters, st). nat (maxIters - nIters st))"
    by simp
qed

declare gibbs_loop.simps [simp del]

text \<open>
  The chain up to the end of the loop: seeding, \<^verbatim>\<open>initStarts\<close>, the initial model
  and its diagnostics, the two \<^verbatim>\<open>deepcopy\<close> objects of line 1227 (store cells 2 and
  3) and the loop.  The branch \<^verbatim>\<open>init_oracle\<close>, which unpickles the result of an
  earlier implementation and is marked deprecated, is not part of the model.
\<close>

definition gibbs_run ::
  "('m, 'r) externals \<Rightarrow> (protein \<rightharpoonup> pwm) \<Rightarrow> (nat \<times> int list) list \<Rightarrow> protein list \<Rightarrow>
   (string \<times> protein list) list \<Rightarrow> matrix list \<Rightarrow> (string \<rightharpoonup> int \<times> int) \<Rightarrow> int \<Rightarrow>
   nat option \<Rightarrow> (protein \<rightharpoonup> int \<times> int) \<Rightarrow>
   (real list \<times> real list \<times> ('m, 'r) chain_state) option" where
  "gibbs_run ext pwms edges uniqueProteins obsGrps fullX grpInd maxIters randSeed fixedStarts =
     do { (start, rv, g) \<leftarrow> initStarts ext uniqueProteins pwms (int (length edges)) fixedStarts
                              (seed ext randSeed);
          init_model \<leftarrow> form_model ext fullX uniqueProteins pwms start rv;
          init_PC_agree \<leftarrow> computePC_agree ext init_model uniqueProteins pwms start rv fullX;
          init_mse \<leftarrow> compute_MSE ext init_model uniqueProteins pwms start rv fullX;
          st \<leftarrow> gibbs_loop ext pwms edges uniqueProteins obsGrps fullX grpInd fixedStarts maxIters
                 \<lparr>store = [start, rv, start, rv], v_start = 0, v_rev = 1,
                  v_bestStart = 2, v_bestRev = 3, bestll = - (10 ^ 30),
                  llsAll = [- (10 ^ 30)], nIters = 0, converged = False, model = None,
                  rng = g\<rparr>;
          Some (init_PC_agree, init_mse, st) }"

record 'm chain_result =
  r_start :: dict
  r_rev :: dict
  r_ll :: real
  r_reorient :: bool
  r_PC_agree :: "real list"
  r_init_PC_agree :: "real list"
  r_score :: real
  r_init_mse :: "real list"
  r_final_mse :: "real list"
  r_final_model :: "'m list"

text \<open>Lines 1298-1318: the variables \<open>start\<close> and \<open>rev\<close> take the best references.\<close>

definition gibbsSampleGLM ::
  "('m, 'r) externals \<Rightarrow> (protein \<rightharpoonup> pwm) \<Rightarrow> (nat \<times> int list) list \<Rightarrow> protein list \<Rightarrow>
   (string \<times> protein list) list \<Rightarrow> matrix list \<Rightarrow> (string \<rightharpoonup> int \<times> int) \<Rightarrow> int \<Rightarrow>
   nat option \<Rightarrow> (protein \<rightharpoonup> int \<times> int) \<Rightarrow> 'm chain_result option" where
  "gibbsSampleGLM ext pwms edges uniqueProteins obsGrps fullX grpInd maxIters randSeed
     fixedStarts =
     do { (init_PC_agree, init_mse, st) \<leftarrow>
            gibbs_run ext pwms edges uniqueProteins obsGrps fullX grpInd maxIters randSeed
              fixedStarts;
          start \<leftarrow> at_pos (store st) (v_bestStart st);
          rv \<leftarrow> at_pos (store st) (v_bestRev st);
          final_model \<leftarrow> form_model ext fullX uniqueProteins pwms start rv;
          PC_agree \<leftarrow> computePC_agree ext final_model uniqueProteins pwms start rv fullX;
          final_mse \<leftarrow> compute_MSE ext final_model uniqueProteins pwms start rv fullX;
          final_model \<leftarrow> form_model ext fullX uniqueProteins pwms start rv;
          PC_agree \<leftarrow> computePC_agree ext final_model uniqueProteins pwms start rv fullX;
          Some \<lparr>r_start = start, r_rev = rv, r_ll = bestll st, r_reorient = False,
                r_PC_agree = PC_agree, r_init_PC_agree = init_PC_agree,
                r_score = sum_list PC_agree, r_init_mse = init_mse,
                r_final_mse = final_mse, r_final_model = final_model\<rparr> }"

subsection \<open>Auxiliary definitions and example inputs\<close>

text \<open>Two stores agree on the entry of protein \<open>p\<close> in every dictionary.\<close>

definition same_at :: "protein \<Rightarrow> dict list \<Rightarrow> dict list \<Rightarrow> bool" where
  "same_at p sto sto' \<longleftrightarrow>
     length sto' = length sto \<and> (\<forall>i < length sto. map_of (sto' ! i) p = map_of (sto ! i) p)"

text \<open>The rows appended per protein by lines 871-878.\<close>

definition rows_per :: "string \<Rightarrow> nat" where
  "rows_per modelType =
     (if modelType = ''classifier'' then 4 else if modelType = ''regressor'' then 1 else 0)"

text \<open>
  Two proteins \<open>a\<close> and \<open>b\<close> with the cores \<open>A\<close> and \<open>C\<close>, each its own
  observation group, and a contact map that lets every window position see
  core index 0.
\<close>

definition ex_edges :: "(nat \<times> int list) list" where
  "ex_edges = [(0, [0]), (1, [0]), (2, [0]), (3, [0]), (4, [0]), (5, [0])]"

definition ex_core :: "protein \<rightharpoonup> string" where
  "ex_core = [''a'' \<mapsto> ''A'', ''b'' \<mapsto> ''C'']"

definition ex_obsGrps :: "(string \<times> protein list) list" where
  "ex_obsGrps = [(''A'', [''a'']), (''C'', [''b''])]"

definition ex_row_a :: "int list" where
  "ex_row_a = (replicate 19 0)[0 := 1]"

definition ex_row_b :: "int list" where
  "ex_row_b = (replicate 19 0)[1 := 1]"

definition ex_X :: "matrix" where
  "ex_X = replicate 4 ex_row_a @ replicate 4 ex_row_b"

definition ex_fullX :: "matrix list" where
  "ex_fullX = [ex_X, ex_X, ex_X, ex_X, ex_X, ex_X]"

text \<open>A row that rounds to 25 counts per base, and one that rounds to 1, 1, 1 and 98.\<close>

definition ex_uniform :: "real list" where
  "ex_uniform = [1 / 4, 1 / 4, 1 / 4, 1 / 4]"

definition ex_skew :: "real list" where
  "ex_skew = [3 / 500, 3 / 500, 3 / 500, 491 / 500]"

text \<open>Protein \<open>a\<close> has 7 rows (starts 0 and 1), protein \<open>b\<close> has 6 (start 0 only).\<close>

definition ex_pwms :: "protein \<rightharpoonup> pwm" where
  "ex_pwms = [''a'' \<mapsto> [ex_uniform, ex_uniform, ex_uniform, ex_uniform, ex_uniform, ex_uniform, ex_skew],
              ''b'' \<mapsto> [ex_uniform, ex_uniform, ex_uniform, ex_uniform, ex_uniform, ex_uniform]]"

text \<open>Externals for the example: the fitted classifier predicts the uniform distribution
  for every row; the generator state counts the draws, \<^verbatim>\<open>randint\<close> returns its lower
  bound and \<^verbatim>\<open>choice\<close> returns index 1 at draw number \<open>k\<close> and index 0 otherwise.\<close>

definition ex_ext :: "nat \<Rightarrow> (unit, nat) externals" where
  "ex_ext k = \<lparr>matrix_compl = (\<lambda>m. rev (map rev m)),
              fit = (\<lambda>X y w. Some ()),
              predict_proba = (\<lambda>m X. Some (map (\<lambda>row. ex_uniform) X)),
              seed = (\<lambda>s. 0),
              randint = (\<lambda>low high g. (low, Suc g)),
              choice = (\<lambda>p g. (if g = k then 1 else 0, Suc g)),
              pearsonr = (\<lambda>x y. Some 0),
              mean_squared_error = (\<lambda>x y. Some (sum_list (map2 (\<lambda>a b. (a - b)\<^sup>2) x y) / real (length x)))\<rparr>"

text \<open>The row ranges that \<^verbatim>\<open>formGLM_fullX\<close> gives for the example.\<close>

definition ex_grpInd :: "string \<rightharpoonup> int \<times> int" where
  "ex_grpInd = [''A'' \<mapsto> (0, 3), ''C'' \<mapsto> (4, 7)]"

definition ex_testX_a :: "matrix list" where
  "ex_testX_a = [replicate 4 ex_row_a, replicate 4 ex_row_a, replicate 4 ex_row_a,
                 replicate 4 ex_row_a, replicate 4 ex_row_a, replicate 4 ex_row_a]"

definition ex_testX_b :: "matrix list" where
  "ex_testX_b = [replicate 4 ex_row_b, replicate 4 ex_row_b, replicate 4 ex_row_b,
                 replicate 4 ex_row_b, replicate 4 ex_row_b, replicate 4 ex_row_b]"

definition ex_model :: "unit list" where
  "ex_model = [(), (), (), (), (), ()]"

definition ex_W :: "real list \<Rightarrow> trainW list" where
  "ex_W last_row = [Classifier ex_uniform, Classifier ex_uniform, Classifier ex_uniform,
                    Classifier ex_uniform, Classifier ex_uniform, Classifier last_row]"

text \<open>The loop state of the example with \<open>start[a] = sa\<close>, all other registers 0 and
  the two copies of line 1227 in cells 2 and 3.\<close>

definition ex_st ::
  "int \<Rightarrow> nat \<Rightarrow> nat \<Rightarrow> real \<Rightarrow> real list \<Rightarrow> int \<Rightarrow> bool \<Rightarrow> unit list option \<Rightarrow> nat
   \<Rightarrow> (unit, nat) chain_state" where
  "ex_st sa vb vr bl h n c m g =
     \<lparr>store = [[(''a'', sa), (''b'', 0)], [(''a'', 0), (''b'', 0)],
               [(''a'', 0), (''b'', 0)], [(''a'', 0), (''b'', 0)]],
      v_start = 0, v_rev = 1, v_bestStart = vb, v_bestRev = vr, bestll = bl,
      llsAll = h, nIters = n, converged = c, model = m, rng = g\<rparr>"

text \<open>The quantity claim C4 compares with: the log-likelihood, scored as in lines
  1264-1268, of the registers that \<^verbatim>\<open>initStarts\<close> returns under the initial full-data
  model.  \<^verbatim>\<open>gibbsSampleGLM\<close> itself never computes it.\<close>

definition spec_initial_loglik ::
  "('m, 'r) externals \<Rightarrow> (protein \<rightharpoonup> pwm) \<Rightarrow> (nat \<times> int list) list \<Rightarrow> protein list \<Rightarrow>
   matrix list \<Rightarrow> nat option \<Rightarrow> (protein \<rightharpoonup> int \<times> int) \<Rightarrow> real option" where
  "spec_initial_loglik ext pwms edges uniqueProteins fullX randSeed fixedStarts =
     do { (start, rv, g) \<leftarrow> initStarts ext uniqueProteins pwms (int (length edges)) fixedStarts
                              (seed ext randSeed);
          init_model \<leftarrow> form_model ext fullX uniqueProteins pwms start rv;
          full_loglik ext fullX uniqueProteins pwms start rv (Some init_model) }"

text \<open>A seed table that pins protein \<open>b\<close> to start 0, orientation 1.\<close>

definition ex_fixed :: "protein \<rightharpoonup> int \<times> int" where
  "ex_fixed = [''b'' \<mapsto> (0, 1)]"


section \<open>Properties\<close>

subsection \<open>Decoding the sampled index\<close>






subsection \<open>Training labels\<close>

lemma set_concat_replicate: "0 < n \<Longrightarrow> set (concat (replicate n xs)) = set xs"
  by (induction n) auto

text \<open>
  Claim C10.  \<^verbatim>\<open>formGLM_Y\<close> returns, for each of the \<open>MWID\<close> window positions, the
  labels \<open>[0,1,2,3]\<close> repeated once per protein; for a non-empty protein list the
  labels of every position are exactly the four classes.  The labels do not
  depend on which proteins are listed, so this holds for the training proteins
  left by any held-out row range as long as one protein is left.
\<close>

theorem formGLM_Y_all_classes:
  assumes "j < MWID"
  shows "length (formGLM_Y keysToUse) = MWID \<and>
         formGLM_Y keysToUse ! j = concat (replicate (length keysToUse) [0, 1, 2, 3]) \<and>
         (keysToUse \<noteq> [] \<longrightarrow> set (formGLM_Y keysToUse ! j) = {0, 1, 2, 3}) \<and>
         (trainProteins uniqueProteins startInd_ho endIndex_ho \<noteq> [] \<longrightarrow>
            set (formGLM_Y (trainProteins uniqueProteins startInd_ho endIndex_ho) ! j)
              = {0, 1, 2, 3})"
  using assms by (auto simp: formGLM_Y_def set_concat_replicate)

theorem formGLM_Y_all_classes_witness:
  "(2::nat) < MWID \<and> [''a'', ''b''] \<noteq> [] \<and>
   formGLM_Y [''a'', ''b''] ! 2 = concat (replicate 2 [0, 1, 2, 3]) \<and>
   set (formGLM_Y [''a'', ''b''] ! 2) = {0, 1, 2, 3} \<and>
   trainProteins [''a'', ''b'', ''c''] 4 7 = [''a'', ''c''] \<and>
   set (formGLM_Y (trainProteins [''a'', ''b'', ''c''] 4 7) ! 2) = {0, 1, 2, 3}"
proof -
  have h: "(2::nat) < MWID" by (simp add: MWID_def)
  have t: "trainProteins [''a'', ''b'', ''c''] 4 7 = [''a'', ''c'']"
    by (simp add: trainProteins_def py_slice_to_def py_slice_from_def py_bound_def)
  have n: "[''a'', ''c''] \<noteq> ([] :: string list)" "[''a'', ''b''] \<noteq> ([] :: string list)"
    by simp_all
  have l: "length [''a'', ''b''] = 2" by simp
  from formGLM_Y_all_classes [OF h, of "[''a'', ''b'']" "[''a'', ''b'', ''c'']" 4 7]
  show ?thesis unfolding t l using h n by blast
qed

subsection \<open>The design matrix and its row ranges\<close>

lemma upt_MWID: "[0..<MWID] = [0, 1, 2, 3, 4, 5]"
  by (simp add: MWID_def upt_rec)

lemma encode_core_length:
  "encode_core core_seq aa_pos numAAs = Some x \<Longrightarrow> length x = length aa_pos * numAAs"
  by (induction aa_pos arbitrary: x) (auto simp: onehot_def split: Option.bind_splits)

lemma fullX_group_rows:
  "fullX_group core aa_pos numAAs modelType ps (Xj, rowNum) = Some (Xj', rowNum') \<Longrightarrow>
   rowNum' = rowNum + int (rows_per modelType * length ps) \<and>
   length Xj' = length Xj + rows_per modelType * length ps \<and>
   (\<forall>row \<in> set Xj' - set Xj. length row = length aa_pos * numAAs)"
proof (induction ps arbitrary: Xj rowNum)
  case Nil
  then show ?case by simp
next
  case (Cons p ps)
  from Cons.prems obtain core_seq x where
    c: "core p = Some core_seq" and x: "encode_core core_seq aa_pos numAAs = Some x"
    by (auto split: Option.bind_splits)
  note lx = encode_core_length [OF x]
  consider (c) "modelType = ''classifier''" | (r) "modelType = ''regressor''"
    | (o) "modelType \<noteq> ''classifier''" "modelType \<noteq> ''regressor''" by blast
  then show ?case
  proof cases
    case c
    with Cons.prems \<open>core p = Some core_seq\<close> x
    have "fullX_group core aa_pos numAAs modelType ps (Xj @ replicate 4 x, rowNum + 4)
            = Some (Xj', rowNum')" by simp
    from Cons.IH [OF this] c lx show ?thesis
      by (auto simp: rows_per_def)
  next
    case r
    with Cons.prems \<open>core p = Some core_seq\<close> x
    have "fullX_group core aa_pos numAAs modelType ps (Xj @ [x], rowNum + 1)
            = Some (Xj', rowNum')" by simp
    from Cons.IH [OF this] r lx show ?thesis
      by (auto simp: rows_per_def)
  next
    case o
    with Cons.prems \<open>core p = Some core_seq\<close> x
    have "fullX_group core aa_pos numAAs modelType ps (Xj, rowNum) = Some (Xj', rowNum')"
      by simp
    from Cons.IH [OF this] o show ?thesis
      by (auto simp: rows_per_def)
  qed
qed

lemma fullX_groups_rows:
  "fullX_groups core aa_pos numAAs modelType grps (Xj, rowNum, grpInd) = Some (Xj', rowNum', grpInd') \<Longrightarrow>
   rowNum' = rowNum + int (rows_per modelType * length (concat (map snd grps))) \<and>
   length Xj' = length Xj + rows_per modelType * length (concat (map snd grps)) \<and>
   (\<forall>row \<in> set Xj' - set Xj. length row = length aa_pos * numAAs) \<and>
   (\<forall>g. g \<notin> fst ` set grps \<longrightarrow> grpInd' g = grpInd g)"
proof (induction grps arbitrary: Xj rowNum grpInd)
  case Nil
  then show ?case by simp
next
  case (Cons gp grps)
  obtain g ps where gp: "gp = (g, ps)" by (cases gp)
  from Cons.prems gp obtain Xj1 rowNum1 where
    1: "fullX_group core aa_pos numAAs modelType ps (Xj, rowNum) = Some (Xj1, rowNum1)" and
    2: "fullX_groups core aa_pos numAAs modelType grps (Xj1, rowNum1, grpInd(g \<mapsto> (rowNum, rowNum1 - 1))) = Some (Xj', rowNum', grpInd')"
    by (auto split: Option.bind_splits)
  note a = fullX_group_rows [OF 1]
  note b = Cons.IH [OF 2]
  from a b show ?case unfolding gp
    by (auto simp: algebra_simps)
qed

lemma fullX_groups_ranges:
  assumes "fullX_groups core aa_pos numAAs modelType grps (Xj, rowNum, grpInd) = Some (Xj', rowNum', grpInd')"
    and "distinct (map fst grps)" and "i < length grps"
  shows "grpInd' (fst (grps ! i)) =
           Some (rowNum + int (rows_per modelType * length (concat (map snd (take i grps)))),
                 rowNum + int (rows_per modelType * length (concat (map snd (take (Suc i) grps)))) - 1)"
  using assms
proof (induction grps arbitrary: Xj rowNum grpInd i)
  case Nil
  then show ?case by simp
next
  case (Cons gp grps)
  obtain g ps where gp: "gp = (g, ps)" by (cases gp)
  from Cons.prems(1) gp obtain Xj1 rowNum1 where
    1: "fullX_group core aa_pos numAAs modelType ps (Xj, rowNum) = Some (Xj1, rowNum1)" and
    2: "fullX_groups core aa_pos numAAs modelType grps (Xj1, rowNum1, grpInd(g \<mapsto> (rowNum, rowNum1 - 1))) = Some (Xj', rowNum', grpInd')"
    by (auto split: Option.bind_splits)
  note a = fullX_group_rows [OF 1]
  show ?case
  proof (cases i)
    case 0
    have "g \<notin> fst ` set grps" using Cons.prems(2) gp by simp
    with fullX_groups_rows [OF 2] have "grpInd' g = Some (rowNum, rowNum1 - 1)" by simp
    with a 0 gp show ?thesis by simp
  next
    case (Suc k)
    then have k: "k < length grps" using Cons.prems(3) by simp
    have d: "distinct (map fst grps)" using Cons.prems(2) by simp
    from Cons.IH [OF 2 d k] a Suc gp show ?thesis
      by (simp add: algebra_simps)
  qed
qed


lemma onehot_nth:
  "length (onehot numAAs aa) = numAAs \<and>
   (\<forall>c < numAAs. onehot numAAs aa ! c = (if c = aa then 1 else 0))"
  by (auto simp: onehot_def)

lemma fullX_group_origin:
  "fullX_group core aa_pos numAAs modelType ps (Xj, rowNum) = Some (Xj', rowNum') \<Longrightarrow>
   \<forall>row \<in> set Xj. \<exists>core_seq. encode_core core_seq aa_pos numAAs = Some row \<Longrightarrow>
   \<forall>row \<in> set Xj'. \<exists>core_seq. encode_core core_seq aa_pos numAAs = Some row"
proof (induction ps arbitrary: Xj rowNum)
  case Nil
  then show ?case by simp
next
  case (Cons p ps)
  from Cons.prems(1) obtain core_seq x where
    c: "core p = Some core_seq" and x: "encode_core core_seq aa_pos numAAs = Some x"
    by (auto split: Option.bind_splits)
  from Cons.prems(1) c x obtain Xj1 rowNum1 where
    1: "fullX_group core aa_pos numAAs modelType ps (Xj1, rowNum1) = Some (Xj', rowNum')" and
    2: "set Xj1 \<subseteq> insert x (set Xj)"
    by (auto split: if_splits)
  have "\<forall>row \<in> set Xj1. \<exists>core_seq. encode_core core_seq aa_pos numAAs = Some row"
    using 2 x Cons.prems(2) by blast
  from Cons.IH [OF 1 this] show ?case .
qed

lemma fullX_groups_origin:
  "fullX_groups core aa_pos numAAs modelType grps (Xj, rowNum, grpInd) = Some (Xj', rowNum', grpInd') \<Longrightarrow>
   \<forall>row \<in> set Xj. \<exists>core_seq. encode_core core_seq aa_pos numAAs = Some row \<Longrightarrow>
   \<forall>row \<in> set Xj'. \<exists>core_seq. encode_core core_seq aa_pos numAAs = Some row"
proof (induction grps arbitrary: Xj rowNum grpInd)
  case Nil
  then show ?case by simp
next
  case (Cons gp grps)
  obtain g ps where gp: "gp = (g, ps)" by (cases gp)
  from Cons.prems(1) gp obtain Xj1 rowNum1 where
    1: "fullX_group core aa_pos numAAs modelType ps (Xj, rowNum) = Some (Xj1, rowNum1)" and
    2: "fullX_groups core aa_pos numAAs modelType grps (Xj1, rowNum1, grpInd(g \<mapsto> (rowNum, rowNum1 - 1))) = Some (Xj', rowNum', grpInd')"
    by (auto split: Option.bind_splits)
  from Cons.IH [OF 2 fullX_group_origin [OF 1 Cons.prems(2)]] show ?case .
qed

lemma fullX_positions_shape:
  assumes "fullX_positions core edges numAAs modelType obsGrps js (X, grpInd) = Some (X', grpInd')"
  shows "length X' = length X + length js \<and>
         (\<forall>k < length X. X' ! k = X ! k) \<and>
         (\<forall>k < length js. \<exists>aa_pos. map_of edges (js ! k) = Some aa_pos \<and>
              length (X' ! (length X + k)) = rows_per modelType * length (concat (map snd obsGrps)) \<and>
              (\<forall>row \<in> set (X' ! (length X + k)).
                 \<exists>core_seq. encode_core core_seq aa_pos numAAs = Some row))"
  using assms
proof (induction js arbitrary: X grpInd)
  case Nil
  then show ?case by simp
next
  case (Cons j js)
  from Cons.prems(1) obtain aa_pos Xj rowNum grpInd1 where
    e: "map_of edges j = Some aa_pos" and
    1: "fullX_groups core aa_pos numAAs modelType obsGrps ([], 0, grpInd) = Some (Xj, rowNum, grpInd1)" and
    2: "fullX_positions core edges numAAs modelType obsGrps js (X @ [Xj], grpInd1) = Some (X', grpInd')"
    by (auto split: Option.bind_splits)
  note a = fullX_groups_rows [OF 1]
  have o: "\<forall>row \<in> set Xj. \<exists>core_seq. encode_core core_seq aa_pos numAAs = Some row"
    using fullX_groups_origin [OF 1] by simp
  note ih = Cons.IH [OF 2]
  have len: "length X' = length X + length (j # js)" using ih by simp
  have keep: "\<forall>k < length X. X' ! k = X ! k"
    using ih by (auto simp: nth_append)
  have here: "X' ! length X = Xj"
    using ih by (auto simp: nth_append)
  have pos: "\<exists>aa_pos. map_of edges ((j # js) ! k) = Some aa_pos \<and>
              length (X' ! (length X + k)) = rows_per modelType * length (concat (map snd obsGrps)) \<and>
              (\<forall>row \<in> set (X' ! (length X + k)).
                 \<exists>core_seq. encode_core core_seq aa_pos numAAs = Some row)"
    if "k < length (j # js)" for k
  proof (cases k)
    case 0
    with e a o here show ?thesis by auto
  next
    case (Suc k')
    with that have "k' < length js" by simp
    with ih Suc show ?thesis by auto
  qed
  from len keep pos show ?case by blast
qed

lemma fullX_positions_ranges:
  assumes "fullX_positions core edges numAAs modelType obsGrps js (X, grpInd) = Some (X', grpInd')"
    and "distinct (map fst obsGrps)" and "js \<noteq> []" and "i < length obsGrps"
  shows "grpInd' (fst (obsGrps ! i)) =
           Some (int (rows_per modelType * length (concat (map snd (take i obsGrps)))),
                 int (rows_per modelType * length (concat (map snd (take (Suc i) obsGrps)))) - 1)"
  using assms
proof (induction js arbitrary: X grpInd)
  case Nil
  then show ?case by simp
next
  case (Cons j js)
  from Cons.prems(1) obtain aa_pos Xj rowNum grpInd1 where
    1: "fullX_groups core aa_pos numAAs modelType obsGrps ([], 0, grpInd) = Some (Xj, rowNum, grpInd1)" and
    2: "fullX_positions core edges numAAs modelType obsGrps js (X @ [Xj], grpInd1) = Some (X', grpInd')"
    by (auto split: Option.bind_splits)
  show ?case
  proof (cases "js = []")
    case True
    with 2 have "grpInd' = grpInd1" by simp
    with fullX_groups_ranges [OF 1 Cons.prems(2) Cons.prems(4)] show ?thesis by simp
  next
    case False
    from Cons.IH [OF 2 Cons.prems(2) False Cons.prems(4)] show ?thesis .
  qed
qed

lemma ex_groups:
  "fullX_groups ex_core [0] 19 ''classifier'' ex_obsGrps ([], 0, g)
     = Some (ex_X, 8, g(''A'' \<mapsto> (0, 3), ''C'' \<mapsto> (4, 7)))"
  by (simp add: ex_obsGrps_def ex_core_def ex_X_def ex_row_a_def ex_row_b_def
      py_get_def A2IND_def AMINO_def onehot_def)

lemma ex_formGLM_fullX:
  "\<exists>g. formGLM_fullX ex_core ex_edges [''a'', ''b''] ex_obsGrps 19 ''classifier''
          = Some (ex_fullX, g) \<and> g ''A'' = Some (0, 3) \<and> g ''C'' = Some (4, 7)"
  by (simp add: formGLM_fullX_def upt_MWID ex_edges_def ex_groups ex_fullX_def)

text \<open>
  Claim C6.  In classifier mode (regressor mode) the row range that
  \<^verbatim>\<open>formGLM_fullX\<close> records for the \<open>i\<close>-th observation group in traversal order
  has width \<open>4 * |group|\<close> (\<open>|group|\<close>); the first range starts at row 0, every
  other range starts right after the end of the previous one, and the last range
  ends at the last row of \<open>X[j]\<close>, for every window position \<open>j\<close> alike.
\<close>

theorem grpInd_tiles_rows:
  assumes "formGLM_fullX core edges uniqueProteins obsGrps numAAs modelType = Some (X, grpInd)"
    and "distinct (map fst obsGrps)"
    and "modelType = ''classifier'' \<or> modelType = ''regressor''"
    and "i < length obsGrps"
  shows "\<exists>s e. grpInd (fst (obsGrps ! i)) = Some (s, e) \<and>
           e - s + 1 = (if modelType = ''classifier'' then 4 else 1) * int (length (snd (obsGrps ! i))) \<and>
           (i = 0 \<longrightarrow> s = 0) \<and>
           (0 < i \<longrightarrow> (\<exists>s' e'. grpInd (fst (obsGrps ! (i - 1))) = Some (s', e') \<and> s = e' + 1)) \<and>
           (\<forall>j < MWID. j < length X \<and>
              (Suc i = length obsGrps \<longrightarrow> int (length (X ! j)) = e + 1))"
proof -
  define w where "w = rows_per modelType"
  have w: "int w = (if modelType = ''classifier'' then 4 else 1)"
    using assms(3) by (auto simp: w_def rows_per_def)
  have ne: "[0..<MWID] \<noteq> []" by (simp add: MWID_def)
  note fp = assms(1) [unfolded formGLM_fullX_def]
  define pre where "pre k = length (concat (map snd (take k obsGrps)))" for k
  have r: "grpInd (fst (obsGrps ! k)) = Some (int (w * pre k), int (w * pre (Suc k)) - 1)"
    if "k < length obsGrps" for k
    using fullX_positions_ranges [OF fp assms(2) ne that] by (simp add: w_def pre_def)
  have step: "pre (Suc k) = pre k + length (snd (obsGrps ! k))" if "k < length obsGrps" for k
    using that by (simp add: pre_def take_Suc_conv_app_nth)
  have p0: "pre 0 = 0" by (simp add: pre_def)
  have shape: "j < length X \<and> length (X ! j) = w * pre (length obsGrps)" if "j < MWID" for j
    using fullX_positions_shape [OF fp] that by (auto simp: w_def pre_def)
  let ?s = "int (w * pre i)" and ?e = "int (w * pre (Suc i)) - 1"
  have 1: "grpInd (fst (obsGrps ! i)) = Some (?s, ?e)" using r assms(4) by simp
  have 2: "?e - ?s + 1 = (if modelType = ''classifier'' then 4 else 1) * int (length (snd (obsGrps ! i)))"
    using step [OF assms(4)] w by (simp add: algebra_simps)
  have 3: "i = 0 \<longrightarrow> ?s = 0" using p0 by simp
  have 4: "0 < i \<longrightarrow> (\<exists>s' e'. grpInd (fst (obsGrps ! (i - 1))) = Some (s', e') \<and> ?s = e' + 1)"
  proof
    assume "0 < i"
    then have "i - 1 < length obsGrps" "Suc (i - 1) = i" using assms(4) by auto
    with r [of "i - 1"] show "\<exists>s' e'. grpInd (fst (obsGrps ! (i - 1))) = Some (s', e') \<and> ?s = e' + 1"
      by simp
  qed
  have 5: "\<forall>j < MWID. j < length X \<and> (Suc i = length obsGrps \<longrightarrow> int (length (X ! j)) = ?e + 1)"
    using shape by auto
  from 1 2 3 4 5 show ?thesis by blast
qed

theorem grpInd_tiles_rows_witness:
  "\<exists>X grpInd.
     formGLM_fullX ex_core ex_edges [''a'', ''b''] ex_obsGrps 19 ''classifier'' = Some (X, grpInd) \<and>
     distinct (map fst ex_obsGrps) \<and> 1 < length ex_obsGrps \<and>
     (\<exists>s e. grpInd (fst (ex_obsGrps ! 1)) = Some (s, e) \<and>
        e - s + 1 = 4 * int (length (snd (ex_obsGrps ! 1))) \<and>
        (\<exists>s' e'. grpInd (fst (ex_obsGrps ! 0)) = Some (s', e') \<and> s = e' + 1) \<and>
        (\<forall>j < MWID. j < length X \<and> int (length (X ! j)) = e + 1))"
proof -
  from ex_formGLM_fullX obtain g where
    g: "formGLM_fullX ex_core ex_edges [''a'', ''b''] ex_obsGrps 19 ''classifier''
          = Some (ex_fullX, g)" by blast
  have d: "distinct (map fst ex_obsGrps)" by (simp add: ex_obsGrps_def)
  have m: "''classifier'' = ''classifier'' \<or> ''classifier'' = ''regressor''" by simp
  have i: "1 < length ex_obsGrps" by (simp add: ex_obsGrps_def)
  have l: "Suc 1 = length ex_obsGrps" by (simp add: ex_obsGrps_def)
  from grpInd_tiles_rows [OF g d m i] l have
    "\<exists>s e. g (fst (ex_obsGrps ! 1)) = Some (s, e) \<and>
        e - s + 1 = 4 * int (length (snd (ex_obsGrps ! 1))) \<and>
        (\<exists>s' e'. g (fst (ex_obsGrps ! 0)) = Some (s', e') \<and> s = e' + 1) \<and>
        (\<forall>j < MWID. j < length ex_fullX \<and> int (length (ex_fullX ! j)) = e + 1)"
    by simp
  with g d i show ?thesis by blast
qed

lemma encode_core_residues:
  "encode_core core_seq aa_pos numAAs = Some x \<Longrightarrow>
   \<exists>aas. length aas = length aa_pos \<and>
         (\<forall>k < length aa_pos. \<exists>c. py_get core_seq (aa_pos ! k) = Some c \<and> A2IND c = Some (aas ! k)) \<and>
         x = concat (map (onehot numAAs) aas) \<and>
         (\<forall>k < length aas. aas ! k < 20)"
proof (induction aa_pos arbitrary: x)
  case Nil
  then show ?case by simp
next
  case (Cons i aa_pos)
  from Cons.prems obtain c aa x' where
    c: "py_get core_seq i = Some c" and aa: "A2IND c = Some aa" and
    x': "encode_core core_seq aa_pos numAAs = Some x'" and x: "x = onehot numAAs aa @ x'"
    by (auto split: Option.bind_splits)
  from Cons.IH [OF x'] obtain aas where
    aas: "length aas = length aa_pos"
      "\<forall>k < length aa_pos. \<exists>c. py_get core_seq (aa_pos ! k) = Some c \<and> A2IND c = Some (aas ! k)"
      "x' = concat (map (onehot numAAs) aas)"
      "\<forall>k < length aas. aas ! k < 20" by blast
  have lt: "aa < 20" using aa
    by (auto simp: A2IND_def AMINO_def split: if_splits)
  have 1: "length (aa # aas) = length (i # aa_pos)" using aas(1) by simp
  have 2: "\<exists>c. py_get core_seq ((i # aa_pos) ! k) = Some c \<and> A2IND c = Some ((aa # aas) ! k)"
    if "k < length (i # aa_pos)" for k
  proof (cases k)
    case 0
    with c aa show ?thesis by simp
  next
    case (Suc k')
    with that have "k' < length aa_pos" by simp
    with aas(2) Suc show ?thesis by simp
  qed
  have 3: "x = concat (map (onehot numAAs) (aa # aas))" using x aas(3) by simp
  have 4: "(aa # aas) ! k < 20" if "k < length (aa # aas)" for k
    using that lt aas(4) by (cases k) simp_all
  from 1 2 3 4 show ?case by blast
qed

lemma concat_blocks_nth:
  "\<forall>b \<in> set bs. length b = n \<Longrightarrow> k < length bs \<Longrightarrow> c < n \<Longrightarrow>
   concat bs ! (k * n + c) = bs ! k ! c"
proof (induction bs arbitrary: k)
  case Nil
  then show ?case by simp
next
  case (Cons b bs)
  show ?case
  proof (cases k)
    case 0
    with Cons.prems show ?thesis by (simp add: nth_append)
  next
    case (Suc k')
    with Cons.prems have "concat bs ! (k' * n + c) = bs ! k' ! c"
      by (intro Cons.IH) simp_all
    moreover have "length b = n" using Cons.prems(1) by simp
    ultimately show ?thesis using Suc by (simp add: nth_append)
  qed
qed

lemma concat_replicate_nth:
  "0 < w \<Longrightarrow> i < w * length rows \<Longrightarrow> concat (map (replicate w) rows) ! i = rows ! (i div w)"
proof -
  assume w: "0 < w" and i: "i < w * length rows"
  have b: "\<forall>b \<in> set (map (replicate w) rows). length b = w" by simp
  have k: "i div w < length (map (replicate w) rows)"
    using i w by (simp add: less_mult_imp_div_less mult.commute)
  have c: "i mod w < w" using w by simp
  have "concat (map (replicate w) rows) ! (i div w * w + i mod w)
        = map (replicate w) rows ! (i div w) ! (i mod w)"
    by (rule concat_blocks_nth [OF b k c])
  then show ?thesis using k c by simp
qed

lemma fullX_group_exact:
  "fullX_group core aa_pos numAAs modelType ps (Xj, rowNum) = Some (Xj', rowNum') \<Longrightarrow>
   \<exists>rows. length rows = length ps \<and>
     (\<forall>k < length ps. \<exists>core_seq. core (ps ! k) = Some core_seq \<and>
        encode_core core_seq aa_pos numAAs = Some (rows ! k)) \<and>
     Xj' = Xj @ concat (map (replicate (rows_per modelType)) rows)"
proof (induction ps arbitrary: Xj rowNum)
  case Nil
  then show ?case by simp
next
  case (Cons p ps)
  from Cons.prems obtain core_seq x where
    c: "core p = Some core_seq" and x: "encode_core core_seq aa_pos numAAs = Some x"
    by (auto split: Option.bind_splits)
  from Cons.prems c x obtain rowNum1 where
    1: "fullX_group core aa_pos numAAs modelType ps
          (Xj @ replicate (rows_per modelType) x, rowNum1) = Some (Xj', rowNum')"
    by (auto simp: rows_per_def split: if_splits)
  from Cons.IH [OF 1] obtain rows where
    r: "length rows = length ps"
      "\<forall>k < length ps. \<exists>core_seq. core (ps ! k) = Some core_seq \<and>
        encode_core core_seq aa_pos numAAs = Some (rows ! k)"
      "Xj' = (Xj @ replicate (rows_per modelType) x) @ concat (map (replicate (rows_per modelType)) rows)"
    by blast
  have a: "length (x # rows) = length (p # ps)" using r(1) by simp
  have b: "\<exists>core_seq. core ((p # ps) ! k) = Some core_seq \<and>
        encode_core core_seq aa_pos numAAs = Some ((x # rows) ! k)" if "k < length (p # ps)" for k
  proof (cases k)
    case 0
    with c x show ?thesis by simp
  next
    case (Suc k')
    with that have "k' < length ps" by simp
    with r(2) Suc show ?thesis by simp
  qed
  have d: "Xj' = Xj @ concat (map (replicate (rows_per modelType)) (x # rows))"
    using r(3) by simp
  from a b d show ?case by blast
qed

lemma fullX_groups_exact:
  "fullX_groups core aa_pos numAAs modelType grps (Xj, rowNum, grpInd) = Some (Xj', rowNum', grpInd') \<Longrightarrow>
   \<exists>rows. length rows = length (concat (map snd grps)) \<and>
     (\<forall>k < length rows. \<exists>core_seq. core (concat (map snd grps) ! k) = Some core_seq \<and>
        encode_core core_seq aa_pos numAAs = Some (rows ! k)) \<and>
     Xj' = Xj @ concat (map (replicate (rows_per modelType)) rows)"
proof (induction grps arbitrary: Xj rowNum grpInd)
  case Nil
  then show ?case by simp
next
  case (Cons gp grps)
  obtain g ps where gp: "gp = (g, ps)" by (cases gp)
  from Cons.prems gp obtain Xj1 rowNum1 where
    1: "fullX_group core aa_pos numAAs modelType ps (Xj, rowNum) = Some (Xj1, rowNum1)" and
    2: "fullX_groups core aa_pos numAAs modelType grps (Xj1, rowNum1, grpInd(g \<mapsto> (rowNum, rowNum1 - 1))) = Some (Xj', rowNum', grpInd')"
    by (auto split: Option.bind_splits)
  from fullX_group_exact [OF 1] obtain r1 where
    r1: "length r1 = length ps"
      "\<forall>k < length ps. \<exists>core_seq. core (ps ! k) = Some core_seq \<and>
        encode_core core_seq aa_pos numAAs = Some (r1 ! k)"
      "Xj1 = Xj @ concat (map (replicate (rows_per modelType)) r1)" by blast
  from Cons.IH [OF 2] obtain r2 where
    r2: "length r2 = length (concat (map snd grps))"
      "\<forall>k < length r2. \<exists>core_seq. core (concat (map snd grps) ! k) = Some core_seq \<and>
        encode_core core_seq aa_pos numAAs = Some (r2 ! k)"
      "Xj' = Xj1 @ concat (map (replicate (rows_per modelType)) r2)" by blast
  have a: "length (r1 @ r2) = length (concat (map snd (gp # grps)))"
    using r1(1) r2(1) gp by simp
  have b: "\<exists>core_seq. core (concat (map snd (gp # grps)) ! k) = Some core_seq \<and>
        encode_core core_seq aa_pos numAAs = Some ((r1 @ r2) ! k)" if "k < length (r1 @ r2)" for k
  proof (cases "k < length ps")
    case True
    with r1(1,2) gp show ?thesis by (simp add: nth_append)
  next
    case False
    with that r1(1) have "k - length ps < length r2" by simp
    with r2(2) False r1(1) gp show ?thesis by (simp add: nth_append)
  qed
  have d: "Xj' = Xj @ concat (map (replicate (rows_per modelType)) (r1 @ r2))"
    using r1(3) r2(3) by simp
  from a b d show ?case by blast
qed

lemma fullX_positions_exact:
  assumes "fullX_positions core edges numAAs modelType obsGrps js (X, grpInd) = Some (X', grpInd')"
    and "k < length js"
  shows "\<exists>aa_pos rows. map_of edges (js ! k) = Some aa_pos \<and>
           length rows = length (concat (map snd obsGrps)) \<and>
           (\<forall>i < length rows. \<exists>core_seq. core (concat (map snd obsGrps) ! i) = Some core_seq \<and>
              encode_core core_seq aa_pos numAAs = Some (rows ! i)) \<and>
           X' ! (length X + k) = concat (map (replicate (rows_per modelType)) rows)"
  using assms
proof (induction js arbitrary: X grpInd k)
  case Nil
  then show ?case by simp
next
  case (Cons j js)
  from Cons.prems(1) obtain aa_pos Xj rowNum grpInd1 where
    e: "map_of edges j = Some aa_pos" and
    1: "fullX_groups core aa_pos numAAs modelType obsGrps ([], 0, grpInd) = Some (Xj, rowNum, grpInd1)" and
    2: "fullX_positions core edges numAAs modelType obsGrps js (X @ [Xj], grpInd1) = Some (X', grpInd')"
    by (auto split: Option.bind_splits)
  note sh = fullX_positions_shape [OF 2]
  show ?case
  proof (cases k)
    case 0
    from sh have "X' ! length X = Xj" by (auto simp: nth_append)
    with fullX_groups_exact [OF 1] e 0 show ?thesis by auto
  next
    case (Suc k')
    with Cons.prems(2) have "k' < length js" by simp
    from Cons.IH [OF 2 this] Suc show ?thesis by simp
  qed
qed

text \<open>
  Claim C3, as amended.  Row \<open>i\<close> of the matrix that \<^verbatim>\<open>formGLM_fullX\<close> builds for
  window position \<open>j\<close> belongs to the protein at place \<open>i div 4\<close> of the traversal
  order (\<open>i\<close> in regressor mode) and has \<open>|E_j| * numAAs\<close> columns, one block of
  \<open>numAAs\<close> columns per contact index of \<open>E_j\<close>: column \<open>c\<close> of block \<open>k\<close> is 1 exactly
  when \<open>c\<close> is the \<^verbatim>\<open>A2IND\<close> index of the protein's residue at the \<open>k\<close>-th contact
  index, and 0 otherwise.  \<open>numAAs\<close> is 19 unless the caller sets it, so a residue
  of index 19 (the 20th symbol, \<open>Y\<close>) has no column and its block is all zeros.
\<close>

theorem fullX_columns:
  assumes "formGLM_fullX core edges uniqueProteins obsGrps numAAs modelType = Some (X, grpInd)"
    and "j < MWID" and "i < length (X ! j)"
  shows "\<exists>aa_pos core_seq aas.
           map_of edges j = Some aa_pos \<and>
           core (concat (map snd obsGrps) ! (i div (if modelType = ''classifier'' then 4 else 1)))
             = Some core_seq \<and>
           length aas = length aa_pos \<and>
           (\<forall>k < length aa_pos. \<exists>c. py_get core_seq (aa_pos ! k) = Some c \<and>
                                    A2IND c = Some (aas ! k) \<and> aas ! k < 20) \<and>
           length (X ! j ! i) = length aa_pos * numAAs \<and>
           X ! j ! i = concat (map (onehot numAAs) aas) \<and>
           (\<forall>k < length aa_pos. \<forall>c < numAAs.
              X ! j ! i ! (k * numAAs + c) = (if c = aas ! k then 1 else 0))"
proof -
  note fp = assms(1) [unfolded formGLM_fullX_def]
  have jl: "j < length [0..<MWID]" "[0..<MWID] ! j = j" using assms(2) by simp_all
  from fullX_positions_exact [OF fp jl(1)] jl(2) obtain aa_pos rows where
    e: "map_of edges j = Some aa_pos" and
    l: "length rows = length (concat (map snd obsGrps))" and
    r: "\<forall>i < length rows. \<exists>core_seq. core (concat (map snd obsGrps) ! i) = Some core_seq \<and>
              encode_core core_seq aa_pos numAAs = Some (rows ! i)" and
    x: "X ! j = concat (map (replicate (rows_per modelType)) rows)"
    by auto
  define w where "w = rows_per modelType"
  have len: "length (X ! j) = w * length rows"
    unfolding x w_def by (induction rows) simp_all
  with assms(3) have wpos: "0 < w" by (cases w) simp_all
  then have weq: "w = (if modelType = ''classifier'' then 4 else 1)"
    by (auto simp: w_def rows_per_def split: if_splits)
  have il: "i < w * length rows" using assms(3) len by simp
  then have dl: "i div w < length rows"
    using wpos by (simp add: less_mult_imp_div_less mult.commute)
  have row: "X ! j ! i = rows ! (i div w)"
    unfolding x w_def [symmetric] by (rule concat_replicate_nth [OF wpos il])
  from r dl obtain core_seq where
    c: "core (concat (map snd obsGrps) ! (i div w)) = Some core_seq" and
    en: "encode_core core_seq aa_pos numAAs = Some (rows ! (i div w))" by blast
  from encode_core_residues [OF en] obtain aas where
    aas: "length aas = length aa_pos"
      "\<forall>k < length aa_pos. \<exists>c. py_get core_seq (aa_pos ! k) = Some c \<and> A2IND c = Some (aas ! k)"
      "rows ! (i div w) = concat (map (onehot numAAs) aas)"
      "\<forall>k < length aas. aas ! k < 20" by blast
  have cols: "X ! j ! i ! (k * numAAs + c) = (if c = aas ! k then 1 else 0)"
    if "k < length aa_pos" "c < numAAs" for k c
  proof -
    have b: "\<forall>b \<in> set (map (onehot numAAs) aas). length b = numAAs"
      by (simp add: onehot_nth)
    have kl: "k < length (map (onehot numAAs) aas)" using that(1) aas(1) by simp
    have "concat (map (onehot numAAs) aas) ! (k * numAAs + c) = map (onehot numAAs) aas ! k ! c"
      by (rule concat_blocks_nth [OF b kl that(2)])
    also have "\<dots> = onehot numAAs (aas ! k) ! c" using that(1) aas(1) by simp
    also have "\<dots> = (if c = aas ! k then 1 else 0)" using onehot_nth that(2) by blast
    finally show ?thesis unfolding row aas(3) .
  qed
  have res: "\<forall>k < length aa_pos. \<exists>c. py_get core_seq (aa_pos ! k) = Some c \<and>
                                    A2IND c = Some (aas ! k) \<and> aas ! k < 20"
    using aas(1,2,4) by auto
  have ln: "length (X ! j ! i) = length aa_pos * numAAs"
    unfolding row using encode_core_length [OF en] .
  from e c [unfolded weq] aas(1) res ln aas(3) [folded row] cols show ?thesis by blast
qed

theorem fullX_columns_witness:
  "\<exists>grpInd. formGLM_fullX ex_core ex_edges [''a'', ''b''] ex_obsGrps 19 ''classifier''
       = Some (ex_fullX, grpInd) \<and> (0::nat) < MWID \<and> (5::nat) < length (ex_fullX ! 0) \<and>
     (\<exists>aa_pos core_seq aas.
        map_of ex_edges 0 = Some aa_pos \<and>
        ex_core (concat (map snd ex_obsGrps) ! (5 div 4)) = Some core_seq \<and>
        length aas = length aa_pos \<and>
        (\<forall>k < length aa_pos. \<exists>c. py_get core_seq (aa_pos ! k) = Some c \<and>
                                 A2IND c = Some (aas ! k) \<and> aas ! k < 20) \<and>
        length (ex_fullX ! 0 ! 5) = length aa_pos * 19 \<and>
        ex_fullX ! 0 ! 5 = concat (map (onehot 19) aas) \<and>
        (\<forall>k < length aa_pos. \<forall>c < 19.
           ex_fullX ! 0 ! 5 ! (k * 19 + c) = (if c = aas ! k then 1 else 0)))"
proof -
  from ex_formGLM_fullX obtain g where
    g: "formGLM_fullX ex_core ex_edges [''a'', ''b''] ex_obsGrps 19 ''classifier''
          = Some (ex_fullX, g)" by blast
  have j: "(0::nat) < MWID" by (simp add: MWID_def)
  have i: "(5::nat) < length (ex_fullX ! 0)" by (simp add: ex_fullX_def ex_X_def)
  have w: "(if ''classifier'' = ''classifier'' then 4 else 1) = (4::nat)" by simp
  from fullX_columns [OF g j i, unfolded w] g j i show ?thesis by blast
qed

text \<open>
  With the default \<open>numAAs = 19\<close>, one contact index per position and a protein
  whose core is \<open>Y\<close>: the rows have 19 columns, not 20, and all of them are 0.
\<close>

theorem fullX_columns_counterexample:
  "map_option fst (formGLM_fullX_default [''p'' \<mapsto> ''Y''] ex_edges [''p''] [(''Y'', [''p''])])
     = Some [replicate 4 (replicate 19 0), replicate 4 (replicate 19 0),
             replicate 4 (replicate 19 0), replicate 4 (replicate 19 0),
             replicate 4 (replicate 19 0), replicate 4 (replicate 19 0)]"
  by (simp add: formGLM_fullX_default_def formGLM_fullX_def upt_MWID ex_edges_def
      py_get_def A2IND_def AMINO_def onehot_def)

subsection \<open>Training weights\<close>

lemma for_positions_nth:
  "for_positions f js = Some ys \<Longrightarrow>
   length ys = length js \<and> (\<forall>k < length js. f (js ! k) = Some (ys ! k))"
proof (induction js arbitrary: ys)
  case Nil
  then show ?case by simp
next
  case (Cons j js)
  from Cons.prems obtain y ys' where
    y: "f j = Some y" and ys': "for_positions f js = Some ys'" and e: "ys = y # ys'"
    by (auto split: Option.bind_splits)
  from Cons.IH [OF ys'] y e show ?case
    by (auto simp: nth_Cons split: nat.splits)
qed

lemma for_positions_map:
  "(\<forall>j \<in> set js. f j = Some (g j)) \<Longrightarrow> for_positions f js = Some (map g js)"
  by (induction js) auto

lemma those_map_nth:
  "those (map f xs) = Some ys \<Longrightarrow>
   length ys = length xs \<and> (\<forall>k < length xs. f (xs ! k) = Some (ys ! k))"
proof (induction xs arbitrary: ys)
  case Nil
  then show ?case by simp
next
  case (Cons x xs)
  from Cons.prems obtain y ys' where
    y: "f x = Some y" and ys': "those (map f xs) = Some ys'" and e: "ys = y # ys'"
    by (auto split: option.splits)
  from Cons.IH [OF ys'] y e show ?case
    by (auto simp: nth_Cons split: nat.splits)
qed

lemma those_map_Some:
  "(\<forall>x \<in> set xs. f x = Some (g x)) \<Longrightarrow> those (map f xs) = Some (map g xs)"
  by (induction xs) auto

lemma sum_list_divide:
  fixes xs :: "real list"
  shows "sum_list (map (\<lambda>x. x / t) xs) = sum_list xs / t"
  by (induction xs) (auto simp: add_divide_distrib)

lemma oriented_rows_nth:
  assumes "oriented_rows ext pwms start rv p = Some w" and "j < MWID"
  shows "length w = MWID \<and>
         (\<exists>r m s. map_of rv p = Some r \<and> pwms p = Some m \<and> map_of start p = Some s \<and>
            py_get (if r = 1 then matrix_compl ext m else m) (int j + s) = Some (w ! j))"
proof -
  from assms(1) obtain r m s where
    r: "map_of rv p = Some r" and m: "pwms p = Some m" and s: "map_of start p = Some s" and
    f: "for_positions (\<lambda>j. py_get (if r = 1 then matrix_compl ext m else m) (int j + s))
          [0..<MWID] = Some w"
    by (auto simp: oriented_rows_def split: Option.bind_splits)
  from for_positions_nth [OF f] assms(2) r m s show ?thesis by auto
qed

text \<open>
  Claim C9.  In classifier mode, for a non-empty protein list whose oriented rows
  can all be read and whose entries at every window position have a positive
  total, \<^verbatim>\<open>formGLM_trainW\<close> returns for each position \<open>j\<close> the concatenation, over
  the proteins in order, of the oriented row at \<open>start + j\<close>, divided by the total of
  those entries; the vector sums to 1.
\<close>

theorem trainW_normalised:
  assumes "those (map (oriented_rows ext pwms start rv) uniqueProteins) = Some weights"
    and "uniqueProteins \<noteq> []"
    and "\<forall>j < MWID. 0 < sum_list (concat (map (\<lambda>w. w ! j) weights))"
  shows "\<exists>W. formGLM_trainW ext pwms uniqueProteins start rv ''classifier'' = Some W \<and>
           length W = MWID \<and>
           (\<forall>j < MWID. \<exists>ws.
              W ! j = Classifier ws \<and>
              ws = map (\<lambda>x. x / sum_list (concat (map (\<lambda>w. w ! j) weights)))
                     (concat (map (\<lambda>w. w ! j) weights)) \<and>
              sum_list ws = 1 \<and>
              (\<forall>k < length uniqueProteins. \<exists>r m s.
                 map_of rv (uniqueProteins ! k) = Some r \<and> pwms (uniqueProteins ! k) = Some m \<and>
                 map_of start (uniqueProteins ! k) = Some s \<and>
                 py_get (if r = 1 then matrix_compl ext m else m) (int j + s)
                   = Some (weights ! k ! j)))"
proof -
  let ?row = "\<lambda>j. concat (map (\<lambda>w. w ! j) weights)"
  let ?g = "\<lambda>j. Classifier (map (\<lambda>x. x / sum_list (?row j)) (?row j))"
  note tw = those_map_nth [OF assms(1)]
  have len: "length w = MWID" if "w \<in> set weights" for w
  proof -
    from that obtain k where "k < length weights" "w = weights ! k"
      by (auto simp: in_set_conv_nth)
    with tw have "oriented_rows ext pwms start rv (uniqueProteins ! k) = Some w" by simp
    from oriented_rows_nth [OF this, of 0] show ?thesis by (simp add: MWID_def)
  qed
  have rows: "those (map (\<lambda>w. at_pos w j) weights) = Some (map (\<lambda>w. w ! j) weights)"
    if "j < MWID" for j
    using that len by (intro those_map_Some) (simp add: at_pos_def)
  have "for_positions
          (\<lambda>j. do { rows \<leftarrow> those (map (\<lambda>w. at_pos w j) weights);
                    if uniqueProteins = [] then None
                    else if sum_list (concat rows) = 0 then None
                    else Some (Classifier (map (\<lambda>x. x / sum_list (concat rows)) (concat rows))) })
          [0..<MWID] = Some (map ?g [0..<MWID])"
  proof (intro for_positions_map ballI)
    fix j assume "j \<in> set [0..<MWID]"
    then have j: "j < MWID" by simp
    with assms(3) have "0 < sum_list (?row j)" by blast
    then have "sum_list (?row j) \<noteq> 0" by simp
    with assms(2) rows [OF j]
    show "do { rows \<leftarrow> those (map (\<lambda>w. at_pos w j) weights);
               if uniqueProteins = [] then None
               else if sum_list (concat rows) = 0 then None
               else Some (Classifier (map (\<lambda>x. x / sum_list (concat rows)) (concat rows))) }
          = Some (?g j)" by simp
  qed
  then have W: "formGLM_trainW ext pwms uniqueProteins start rv ''classifier''
                  = Some (map ?g [0..<MWID])"
    using assms(1) by (simp add: formGLM_trainW_def)
  have "\<exists>ws. map ?g [0..<MWID] ! j = Classifier ws \<and>
              ws = map (\<lambda>x. x / sum_list (?row j)) (?row j) \<and> sum_list ws = 1 \<and>
              (\<forall>k < length uniqueProteins. \<exists>r m s.
                 map_of rv (uniqueProteins ! k) = Some r \<and> pwms (uniqueProteins ! k) = Some m \<and>
                 map_of start (uniqueProteins ! k) = Some s \<and>
                 py_get (if r = 1 then matrix_compl ext m else m) (int j + s)
                   = Some (weights ! k ! j))"
    if j: "j < MWID" for j
  proof -
    have s: "sum_list (map (\<lambda>x. x / sum_list (?row j)) (?row j)) = 1"
    proof -
      from assms(3) j have "0 < sum_list (?row j)" by blast
      then show ?thesis by (simp add: sum_list_divide)
    qed
    have o: "\<exists>r m s. map_of rv (uniqueProteins ! k) = Some r \<and> pwms (uniqueProteins ! k) = Some m \<and>
                 map_of start (uniqueProteins ! k) = Some s \<and>
                 py_get (if r = 1 then matrix_compl ext m else m) (int j + s)
                   = Some (weights ! k ! j)" if "k < length uniqueProteins" for k
    proof -
      from tw that have "oriented_rows ext pwms start rv (uniqueProteins ! k) = Some (weights ! k)"
        by simp
      from oriented_rows_nth [OF this j] show ?thesis by blast
    qed
    from j s o show ?thesis by simp
  qed
  with W show ?thesis by (intro exI [of _ "map ?g [0..<MWID]"]) simp
qed

subsection \<open>The convergence test and the loop\<close>

lemma length_filter_eq_iff: "length (filter P xs) = length xs \<longleftrightarrow> (\<forall>x \<in> set xs. P x)"
proof (induction xs)
  case Nil
  then show ?case by simp
next
  case (Cons x xs)
  have "length (filter P xs) \<noteq> Suc (length xs)"
    using length_filter_le [of P xs] by linarith
  with Cons show ?case by auto
qed

lemma nIterLTtol_le: "nIterLTtol ll hist \<le> min (length hist) 5"
proof -
  have "nIterLTtol ll hist \<le> length [0..<min (length hist) 5]"
    unfolding nIterLTtol_def by (rule length_filter_le)
  then show ?thesis by simp
qed

lemma nIterLTtol_short: "length hist < 5 \<Longrightarrow> nIterLTtol ll hist \<noteq> 5"
  using nIterLTtol_le [of ll hist] by simp

lemma nIterLTtol_five:
  "nIterLTtol ll hist = 5 \<longleftrightarrow>
   5 \<le> length hist \<and> (\<forall>i < 5. \<bar>ll - hist ! (length hist - i - 1)\<bar> < 1)"
proof (cases "5 \<le> length hist")
  case False
  then show ?thesis using nIterLTtol_short [of hist ll] by simp
next
  case True
  then have m: "min (length hist) 5 = 5" by simp
  have "nIterLTtol ll hist = 5 \<longleftrightarrow>
        length (filter (\<lambda>i. \<bar>ll - hist ! (length hist - i - 1)\<bar> < 1) [0..<5]) = length [0..<5]"
    by (simp add: nIterLTtol_def m)
  also have "\<dots> \<longleftrightarrow> (\<forall>i < 5. \<bar>ll - hist ! (length hist - i - 1)\<bar> < 1)"
    unfolding length_filter_eq_iff by auto
  finally show ?thesis using True by simp
qed

lemma last_five:
  assumes "5 \<le> length xs"
  shows "(\<forall>x \<in> set (take 5 (rev xs)). P x) \<longleftrightarrow> (\<forall>i < 5. P (xs ! (length xs - i - 1)))"
proof -
  have "take 5 (rev xs) = map (\<lambda>i. xs ! (length xs - i - 1)) [0..<5]"
    using assms by (intro nth_equalityI) (auto simp: rev_nth)
  then show ?thesis by auto
qed

lemma sweep_effect:
  assumes "sweep ext pwms edges uniqueProteins obsGrps fullX grpInd fixedStarts st = Some st'"
  shows "llsAll st' = llsAll st @ [last (llsAll st')]"
    and "nIters st' = nIters st + 1"
    and "bestll st' = max (bestll st) (last (llsAll st'))"
    and "converged st' \<longleftrightarrow> nIterLTtol (last (llsAll st')) (llsAll st) = 5 \<or> converged st"
    and "v_start st' = v_start st" and "v_rev st' = v_rev st"
    and "v_bestStart st' = (if last (llsAll st') > bestll st then v_start st else v_bestStart st)"
    and "v_bestRev st' = (if last (llsAll st') > bestll st then v_rev st else v_bestRev st)"
  using assms by (auto simp: sweep_def split: Option.bind_splits prod.splits if_splits)

text \<open>
  Claim C2, as amended.  A sweep that starts unconverged ends converged if and only
  if at least 5 values are recorded in \<open>llsAll\<close> (the sentinel of line 1228
  included) and the log-likelihood of the sweep differs by less than 1 from each
  of the 5 most recent ones.
\<close>

theorem converged_iff:
  assumes "sweep ext pwms edges uniqueProteins obsGrps fullX grpInd fixedStarts st = Some st'"
    and "\<not> converged st"
  shows "llsAll st' = llsAll st @ [last (llsAll st')] \<and>
         (converged st' \<longleftrightarrow>
            5 \<le> length (llsAll st) \<and>
            (\<forall>x \<in> set (take 5 (rev (llsAll st))). \<bar>last (llsAll st') - x\<bar> < 1))"
proof -
  note e = sweep_effect [OF assms(1)]
  have "converged st' \<longleftrightarrow> nIterLTtol (last (llsAll st')) (llsAll st) = 5"
    using e(4) assms(2) by simp
  also have "\<dots> \<longleftrightarrow> 5 \<le> length (llsAll st) \<and>
      (\<forall>x \<in> set (take 5 (rev (llsAll st))). \<bar>last (llsAll st') - x\<bar> < 1)"
  proof (cases "5 \<le> length (llsAll st)")
    case True
    then show ?thesis
      unfolding nIterLTtol_five last_five [OF True] by simp
  next
    case False
    then show ?thesis by (simp add: nIterLTtol_five)
  qed
  finally show ?thesis using e(1) by simp
qed


lemma gibbs_loop_inv:
  assumes "gibbs_loop ext pwms edges uniqueProteins obsGrps fullX grpInd fixedStarts maxIters st
             = Some st'"
  shows "nIters st \<le> nIters st' \<and> nIters st' \<le> max (nIters st) maxIters \<and>
         (\<exists>new. llsAll st' = llsAll st @ new \<and> int (length new) = nIters st' - nIters st \<and>
                bestll st' = fold max new (bestll st)) \<and>
         v_start st' = v_start st \<and> v_rev st' = v_rev st \<and>
         (v_bestStart st' = v_bestStart st \<or> v_bestStart st' = v_start st) \<and>
         (v_bestRev st' = v_bestRev st \<or> v_bestRev st' = v_rev st) \<and>
         (\<not> converged st \<longrightarrow>
            (\<forall>t. length (llsAll st) \<le> t \<and> Suc t < length (llsAll st') \<longrightarrow>
                 nIterLTtol (llsAll st' ! t) (take t (llsAll st')) \<noteq> 5))"
  using assms
proof (induction ext pwms edges uniqueProteins obsGrps fullX grpInd fixedStarts maxIters st
       arbitrary: st' rule: gibbs_loop.induct)
  case (1 ext pwms edges uniqueProteins obsGrps fullX grpInd fixedStarts maxIters st)
  show ?case
  proof (cases "nIters st < maxIters \<and> \<not> converged st")
    case False
    with "1.prems" have "st' = st" by (simp add: gibbs_loop.simps split: if_splits)
    then show ?thesis by simp
  next
    case True
    with "1.prems" obtain st1 where
      s: "sweep ext pwms edges uniqueProteins obsGrps fullX grpInd fixedStarts st = Some st1" and
      l: "gibbs_loop ext pwms edges uniqueProteins obsGrps fullX grpInd fixedStarts maxIters st1
            = Some st'"
      by (auto simp: gibbs_loop.simps split: option.splits)
    define ll where "ll = last (llsAll st1)"
    note e = sweep_effect [OF s, folded ll_def]
    note ih = "1.IH" [OF True s l]
    have len1: "length (llsAll st1) = Suc (length (llsAll st))"
      by (subst e(1)) simp
    from ih obtain new where
      new: "llsAll st' = llsAll st1 @ new" "int (length new) = nIters st' - nIters st1"
        "bestll st' = fold max new (bestll st1)" by blast
    have a: "nIters st \<le> nIters st' \<and> nIters st' \<le> max (nIters st) maxIters"
    proof -
      from ih have "nIters st1 \<le> nIters st'" "nIters st' \<le> max (nIters st1) maxIters"
        by blast+
      with e(2) True show ?thesis by linarith
    qed
    have b1: "llsAll st' = llsAll st @ (ll # new)"
      by (subst new(1), subst e(1)) simp
    have b2: "int (length (ll # new)) = nIters st' - nIters st"
      using new(2) e(2) by simp
    have b3: "bestll st' = fold max (ll # new) (bestll st)"
      using new(3) e(3) by (simp add: max.commute)
    have c: "v_start st' = v_start st \<and> v_rev st' = v_rev st \<and>
         (v_bestStart st' = v_bestStart st \<or> v_bestStart st' = v_start st) \<and>
         (v_bestRev st' = v_bestRev st \<or> v_bestRev st' = v_rev st)"
    proof -
      from ih have "v_start st' = v_start st1" "v_rev st' = v_rev st1"
        "v_bestStart st' = v_bestStart st1 \<or> v_bestStart st' = v_start st1"
        "v_bestRev st' = v_bestRev st1 \<or> v_bestRev st' = v_rev st1" by blast+
      moreover have "v_bestStart st1 = v_bestStart st \<or> v_bestStart st1 = v_start st"
        "v_bestRev st1 = v_bestRev st \<or> v_bestRev st1 = v_rev st"
        using e(7,8) by (simp_all split: if_splits)
      ultimately show ?thesis using e(5,6) by metis
    qed
    have d: "nIterLTtol (llsAll st' ! t) (take t (llsAll st')) \<noteq> 5"
      if t: "length (llsAll st) \<le> t" "Suc t < length (llsAll st')" for t
    proof (cases "converged st1")
      case True
      with l have "st' = st1" by (simp add: gibbs_loop.simps)
      with t len1 show ?thesis by simp
    next
      case False
      show ?thesis
      proof (cases "t = length (llsAll st)")
        case True
        have "llsAll st' ! t = ll" "take t (llsAll st') = llsAll st"
          using True by (simp_all add: b1)
        moreover have "nIterLTtol ll (llsAll st) \<noteq> 5"
          using False e(4) by simp
        ultimately show ?thesis by simp
      next
        case f: False
        with t(1) len1 have "length (llsAll st1) \<le> t" by simp
        with ih False t(2) show ?thesis by blast
      qed
    qed
    from b1 b2 b3 have b: "\<exists>new. llsAll st' = llsAll st @ new \<and>
        int (length new) = nIters st' - nIters st \<and> bestll st' = fold max new (bestll st)"
      by blast
    from a b c d show ?thesis by blast
  qed
qed

lemma fold_max_Max: "fold max xs (a :: real) = Max (set (a # xs))"
  by (rule Max.set_eq_fold [symmetric])

lemma gibbs_run_loop:
  assumes "gibbs_run ext pwms edges uniqueProteins obsGrps fullX grpInd maxIters randSeed
             fixedStarts = Some (ipa, im, st)"
  shows "\<exists>start rv g.
           initStarts ext uniqueProteins pwms (int (length edges)) fixedStarts (seed ext randSeed)
             = Some (start, rv, g) \<and>
           gibbs_loop ext pwms edges uniqueProteins obsGrps fullX grpInd fixedStarts maxIters
             \<lparr>store = [start, rv, start, rv], v_start = 0, v_rev = 1,
              v_bestStart = 2, v_bestRev = 3, bestll = - (10 ^ 30),
              llsAll = [- (10 ^ 30)], nIters = 0, converged = False, model = None,
              rng = g\<rparr> = Some st"
  using assms by (auto simp: gibbs_run_def split: Option.bind_splits prod.splits)

lemma gibbs_run_history:
  assumes "gibbs_run ext pwms edges uniqueProteins obsGrps fullX grpInd maxIters randSeed
             fixedStarts = Some (ipa, im, st)"
  shows "0 \<le> nIters st" and "nIters st \<le> max 0 maxIters"
    and "int (length (llsAll st)) = nIters st + 1"
    and "hd (llsAll st) = - (10 ^ 30)" and "llsAll st \<noteq> []"
    and "bestll st = Max (set (llsAll st))"
    and "\<forall>t. 1 \<le> t \<and> Suc t < length (llsAll st) \<longrightarrow>
              nIterLTtol (llsAll st ! t) (take t (llsAll st)) \<noteq> 5"
proof -
  from gibbs_run_loop [OF assms] obtain start rv g where
    l: "gibbs_loop ext pwms edges uniqueProteins obsGrps fullX grpInd fixedStarts maxIters
             \<lparr>store = [start, rv, start, rv], v_start = 0, v_rev = 1,
              v_bestStart = 2, v_bestRev = 3, bestll = - (10 ^ 30),
              llsAll = [- (10 ^ 30)], nIters = 0, converged = False, model = None,
              rng = g\<rparr> = Some st" by blast
  note inv = gibbs_loop_inv [OF l, simplified]
  from inv obtain new where
    new: "llsAll st = - (10 ^ 30) # new" "int (length new) = nIters st"
      "bestll st = fold max new (- (10 ^ 30))" by auto
  show "0 \<le> nIters st" "nIters st \<le> max 0 maxIters" using inv by auto
  show "int (length (llsAll st)) = nIters st + 1" using new by simp
  show "hd (llsAll st) = - (10 ^ 30)" "llsAll st \<noteq> []" using new by simp_all
  show "bestll st = Max (set (llsAll st))"
    unfolding new(1) new(3) by (rule fold_max_Max)
  show "\<forall>t. 1 \<le> t \<and> Suc t < length (llsAll st) \<longrightarrow>
              nIterLTtol (llsAll st ! t) (take t (llsAll st)) \<noteq> 5"
    using inv by auto
qed

text \<open>
  Claim C5, as amended.  A chain with cap \<open>maxIters\<close> runs \<open>nIters \<le> maxIters\<close>
  sweeps and records one value per sweep after the sentinel; and a sweep \<open>t \<ge> 5\<close>
  whose log-likelihood differs by less than 1 from each of the 5 values recorded
  before it (the sweeps \<open>t-5\<close> to \<open>t-1\<close>, the sentinel standing for sweep 0) is the
  last sweep of the chain.
\<close>

theorem sweeps_bounded:
  assumes "gibbs_run ext pwms edges uniqueProteins obsGrps fullX grpInd maxIters randSeed
             fixedStarts = Some (ipa, im, st)"
  shows "0 \<le> nIters st \<and> nIters st \<le> max 0 maxIters \<and>
         int (length (llsAll st)) = nIters st + 1 \<and>
         (\<forall>t. 5 \<le> t \<and> t < length (llsAll st) \<and>
              (\<forall>i \<in> {1..5}. \<bar>llsAll st ! t - llsAll st ! (t - i)\<bar> < 1)
              \<longrightarrow> nIters st = int t)"
proof -
  note h = gibbs_run_history [OF assms]
  have "nIters st = int t"
    if t: "5 \<le> t" "t < length (llsAll st)"
      "\<forall>i \<in> {1..5}. \<bar>llsAll st ! t - llsAll st ! (t - i)\<bar> < 1" for t
  proof (rule ccontr)
    assume "nIters st \<noteq> int t"
    with h(3) t(2) have s: "Suc t < length (llsAll st)" by linarith
    with h(7) t(1) have n: "nIterLTtol (llsAll st ! t) (take t (llsAll st)) \<noteq> 5" by simp
    have "\<bar>llsAll st ! t - take t (llsAll st) ! (length (take t (llsAll st)) - i - 1)\<bar> < 1"
      if "i < 5" for i
    proof -
      have "Suc i \<in> {1..5}" using that by simp
      with t(3) have "\<bar>llsAll st ! t - llsAll st ! (t - Suc i)\<bar> < 1" by blast
      moreover have "length (take t (llsAll st)) = t" using t(2) by simp
      moreover have "t - Suc i < t" using t(1) by simp
      ultimately show ?thesis by simp
    qed
    moreover have "5 \<le> length (take t (llsAll st))" using t(1,2) by simp
    ultimately have "nIterLTtol (llsAll st ! t) (take t (llsAll st)) = 5"
      unfolding nIterLTtol_five by blast
    with n show False by simp
  qed
  with h(1,2,3) show ?thesis by blast
qed

lemma gibbsSampleGLM_run:
  assumes "gibbsSampleGLM ext pwms edges uniqueProteins obsGrps fullX grpInd maxIters randSeed
             fixedStarts = Some res"
  shows "\<exists>ipa im st.
           gibbs_run ext pwms edges uniqueProteins obsGrps fullX grpInd maxIters randSeed
             fixedStarts = Some (ipa, im, st) \<and>
           at_pos (store st) (v_bestStart st) = Some (r_start res) \<and>
           at_pos (store st) (v_bestRev st) = Some (r_rev res) \<and>
           r_ll res = bestll st"
  using assms
  by (auto simp: gibbsSampleGLM_def split: Option.bind_splits prod.splits)

text \<open>
  Claim C4, as amended.  The value \<open>ll\<close> of the result is the maximum of the
  recorded history, whose first entry is the sentinel \<open>-1e30\<close> of line 1227: it is
  at least the sentinel and at least the log-likelihood of every sweep.
\<close>

theorem returned_ll_is_maximum:
  assumes "gibbsSampleGLM ext pwms edges uniqueProteins obsGrps fullX grpInd maxIters randSeed
             fixedStarts = Some res"
  shows "\<exists>ipa im st.
           gibbs_run ext pwms edges uniqueProteins obsGrps fullX grpInd maxIters randSeed
             fixedStarts = Some (ipa, im, st) \<and>
           hd (llsAll st) = - (10 ^ 30) \<and>
           r_ll res = Max (set (llsAll st)) \<and>
           - (10 ^ 30) \<le> r_ll res \<and>
           (\<forall>x \<in> set (llsAll st). x \<le> r_ll res)"
proof -
  from gibbsSampleGLM_run [OF assms] obtain ipa im st where
    r: "gibbs_run ext pwms edges uniqueProteins obsGrps fullX grpInd maxIters randSeed
             fixedStarts = Some (ipa, im, st)" and ll: "r_ll res = bestll st" by blast
  note h = gibbs_run_history [OF r]
  have m: "r_ll res = Max (set (llsAll st))" using ll h(6) by simp
  have le: "\<forall>x \<in> set (llsAll st). x \<le> r_ll res" unfolding m by simp
  have "hd (llsAll st) \<in> set (llsAll st)" using h(5) by simp
  with le h(4) have "- (10 ^ 30) \<le> r_ll res" by metis
  with r h(4) m le show ?thesis by blast
qed

subsection \<open>Pinned proteins\<close>

lemma map_of_update_other: "q \<noteq> p \<Longrightarrow> map_of (AList.update q v d) p = map_of d p"
  by (simp add: update_conv')

lemma initStarts_loop_pinned:
  assumes "initStarts_loop ext pwms mWid fixedStarts ks (start, rv, g) = Some (start', rv', g')"
    and "fixedStarts p = Some (s, r)"
    and "p \<in> set ks \<or> (map_of start p = Some s \<and> map_of rv p = Some r)"
  shows "map_of start' p = Some s \<and> map_of rv' p = Some r"
  using assms
proof (induction ks arbitrary: start rv g)
  case Nil
  then show ?case by simp
next
  case (Cons k ks)
  show ?case
  proof (cases "k = p")
    case True
    with Cons.prems(1,2) have
      "initStarts_loop ext pwms mWid fixedStarts ks
         (AList.update p s start, AList.update p r rv, g) = Some (start', rv', g')"
      by simp
    moreover have "map_of (AList.update p s start) p = Some s"
      "map_of (AList.update p r rv) p = Some r" by (simp_all add: update_conv')
    ultimately show ?thesis using Cons.IH Cons.prems(2) by blast
  next
    case False
    from Cons.prems(1) obtain start1 rv1 g1 v w where
      1: "initStarts_loop ext pwms mWid fixedStarts ks (start1, rv1, g1) = Some (start', rv', g')"
      and 2: "start1 = AList.update k v start" "rv1 = AList.update k w rv"
      by (auto simp: Let_def split: option.splits Option.bind_splits prod.splits if_splits)
    from Cons.prems(3) False have
      "p \<in> set ks \<or> (map_of start1 p = Some s \<and> map_of rv1 p = Some r)"
      by (auto simp: 2 map_of_update_other)
    from Cons.IH [OF 1 Cons.prems(2) this] show ?thesis .
  qed
qed

lemma same_at_refl: "same_at p sto sto"
  by (simp add: same_at_def)

lemma same_at_trans: "same_at p a b \<Longrightarrow> same_at p b c \<Longrightarrow> same_at p a c"
  by (simp add: same_at_def)

lemma same_at_update:
  assumes "at_pos sto v = Some d" and "q \<noteq> p"
  shows "same_at p sto (sto[v := AList.update q x d])"
proof -
  from assms(1) have v: "v < length sto" "sto ! v = d"
    by (auto simp: at_pos_def split: if_splits)
  show ?thesis
    unfolding same_at_def using v assms(2)
    by (auto simp: nth_list_update map_of_update_other)
qed

lemma resample_group_pinned:
  assumes "resample_group ext pwms edges uniqueProteins fullX fixedStarts mdl vstart vrev ps
             (sto, index_p, valuesChanged, g) = Some (sto', index_p', valuesChanged', g')"
    and "fixedStarts p \<noteq> None"
  shows "same_at p sto sto'"
  using assms
proof (induction ps arbitrary: sto index_p valuesChanged g)
  case Nil
  then show ?case by (simp add: same_at_refl)
next
  case (Cons q ps)
  show ?case
  proof (cases "fixedStarts q \<noteq> None")
    case True
    with Cons.prems(1) have
      "resample_group ext pwms edges uniqueProteins fullX fixedStarts mdl vstart vrev ps
         (sto, index_p + 1, valuesChanged, g) = Some (sto', index_p', valuesChanged', g')"
      by simp
    from Cons.IH [OF this Cons.prems(2)] show ?thesis .
  next
    case False
    then have qp: "q \<noteq> p" using Cons.prems(2) by auto
    from Cons.prems(1) False obtain start s rv1 r vc1 g1 where
      a: "at_pos sto vstart = Some start" and
      b: "at_pos (sto[vstart := AList.update q s start]) vrev = Some rv1" and
      c: "resample_group ext pwms edges uniqueProteins fullX fixedStarts mdl vstart vrev ps
            ((sto[vstart := AList.update q s start])[vrev := AList.update q r rv1],
             index_p + 1, vc1, g1) = Some (sto', index_p', valuesChanged', g')"
      by (auto simp: Let_def split: Option.bind_splits prod.splits)
    note 1 = same_at_update [OF a qp, of s]
    note 2 = same_at_update [OF b qp, of r]
    note 3 = Cons.IH [OF c Cons.prems(2)]
    from 1 2 3 show ?thesis by (blast intro: same_at_trans)
  qed
qed

lemma sweep_groups_pinned:
  assumes "sweep_groups ext pwms edges uniqueProteins fullX grpInd fixedStarts vstart vrev grps
             (sto, valuesChanged, mdl, g) = Some (sto', valuesChanged', mdl', g')"
    and "fixedStarts p \<noteq> None"
  shows "same_at p sto sto'"
  using assms
proof (induction grps arbitrary: sto valuesChanged mdl g)
  case Nil
  then show ?case by (simp add: same_at_refl)
next
  case (Cons gp grps)
  obtain grpID ps where gp: "gp = (grpID, ps)" by (cases gp)
  from Cons.prems(1) gp obtain m1 sto1 ip vc1 g1 i0 where
    a: "resample_group ext pwms edges uniqueProteins fullX fixedStarts m1 vstart vrev ps
          (sto, i0, valuesChanged, g) = Some (sto1, ip, vc1, g1)" and
    b: "sweep_groups ext pwms edges uniqueProteins fullX grpInd fixedStarts vstart vrev grps
          (sto1, vc1, Some m1, g1) = Some (sto', valuesChanged', mdl', g')"
    by (auto split: Option.bind_splits prod.splits)
  from resample_group_pinned [OF a Cons.prems(2)] Cons.IH [OF b Cons.prems(2)]
  show ?case by (rule same_at_trans)
qed

lemma sweep_pinned:
  assumes "sweep ext pwms edges uniqueProteins obsGrps fullX grpInd fixedStarts st = Some st'"
    and "fixedStarts p \<noteq> None"
  shows "same_at p (store st) (store st')"
proof -
  from assms(1) obtain store' vc m g where
    a: "sweep_groups ext pwms edges uniqueProteins fullX grpInd fixedStarts
          (v_start st) (v_rev st) obsGrps (store st, 0, model st, rng st) = Some (store', vc, m, g)"
    and b: "store st' = store'"
    by (auto simp: sweep_def split: Option.bind_splits prod.splits)
  from sweep_groups_pinned [OF a assms(2)] b show ?thesis by simp
qed

lemma gibbs_loop_pinned:
  assumes "gibbs_loop ext pwms edges uniqueProteins obsGrps fullX grpInd fixedStarts maxIters st
             = Some st'"
    and "fixedStarts p \<noteq> None"
  shows "same_at p (store st) (store st')"
  using assms
proof (induction ext pwms edges uniqueProteins obsGrps fullX grpInd fixedStarts maxIters st
       arbitrary: st' rule: gibbs_loop.induct)
  case (1 ext pwms edges uniqueProteins obsGrps fullX grpInd fixedStarts maxIters st)
  show ?case
  proof (cases "nIters st < maxIters \<and> \<not> converged st")
    case False
    with "1.prems"(1) have "st' = st" by (simp add: gibbs_loop.simps split: if_splits)
    then show ?thesis by (simp add: same_at_refl)
  next
    case True
    with "1.prems"(1) obtain st1 where
      s: "sweep ext pwms edges uniqueProteins obsGrps fullX grpInd fixedStarts st = Some st1" and
      l: "gibbs_loop ext pwms edges uniqueProteins obsGrps fullX grpInd fixedStarts maxIters st1
            = Some st'"
      by (auto simp: gibbs_loop.simps split: option.splits)
    from sweep_pinned [OF s "1.prems"(2)] "1.IH" [OF True s l "1.prems"(2)]
    show ?thesis by (rule same_at_trans)
  qed
qed

text \<open>
  Claim C8.  A protein of the chain that \<open>fixedStarts\<close> lists gets its pinned
  \<open>(start, rev)\<close> from \<^verbatim>\<open>initStarts\<close>, still has it in the live dictionaries when the
  loop ends, whatever the cap on the sweeps, and has it in the returned result.
\<close>

theorem pinned_registers_kept:
  assumes "gibbsSampleGLM ext pwms edges uniqueProteins obsGrps fullX grpInd maxIters randSeed
             fixedStarts = Some res"
    and "fixedStarts p = Some (s, r)"
    and "p \<in> set uniqueProteins"
  shows "(\<exists>start rv g.
            initStarts ext uniqueProteins pwms (int (length edges)) fixedStarts (seed ext randSeed)
              = Some (start, rv, g) \<and> map_of start p = Some s \<and> map_of rv p = Some r) \<and>
         (\<exists>ipa im st.
            gibbs_run ext pwms edges uniqueProteins obsGrps fullX grpInd maxIters randSeed
              fixedStarts = Some (ipa, im, st) \<and>
            map_of (store st ! v_start st) p = Some s \<and>
            map_of (store st ! v_rev st) p = Some r) \<and>
         map_of (r_start res) p = Some s \<and> map_of (r_rev res) p = Some r"
proof -
  from gibbsSampleGLM_run [OF assms(1)] obtain ipa im st where
    run: "gibbs_run ext pwms edges uniqueProteins obsGrps fullX grpInd maxIters randSeed
            fixedStarts = Some (ipa, im, st)" and
    bs: "at_pos (store st) (v_bestStart st) = Some (r_start res)" and
    br: "at_pos (store st) (v_bestRev st) = Some (r_rev res)" by blast
  from gibbs_run_loop [OF run] obtain start rv g where
    i: "initStarts ext uniqueProteins pwms (int (length edges)) fixedStarts (seed ext randSeed)
          = Some (start, rv, g)" and
    l: "gibbs_loop ext pwms edges uniqueProteins obsGrps fullX grpInd fixedStarts maxIters
             \<lparr>store = [start, rv, start, rv], v_start = 0, v_rev = 1,
              v_bestStart = 2, v_bestRev = 3, bestll = - (10 ^ 30),
              llsAll = [- (10 ^ 30)], nIters = 0, converged = False, model = None,
              rng = g\<rparr> = Some st" by blast
  have pin: "map_of start p = Some s \<and> map_of rv p = Some r"
    using initStarts_loop_pinned [OF i [unfolded initStarts_def] assms(2)] assms(3) by blast
  have fp: "fixedStarts p \<noteq> None" using assms(2) by simp
  from gibbs_loop_pinned [OF l fp] have same: "same_at p [start, rv, start, rv] (store st)"
    by simp
  then have len: "length (store st) = 4" by (simp add: same_at_def)
  have cell: "map_of (store st ! 0) p = Some s" "map_of (store st ! 1) p = Some r"
    "map_of (store st ! 2) p = Some s" "map_of (store st ! 3) p = Some r"
    using same pin by (simp_all add: same_at_def)
  note inv = gibbs_loop_inv [OF l, simplified]
  have vs: "v_start st = 0" "v_rev st = 1" using inv by simp_all
  have vb: "v_bestStart st = 2 \<or> v_bestStart st = 0" "v_bestRev st = 3 \<or> v_bestRev st = 1"
    using inv by auto
  from bs have "r_start res = store st ! v_bestStart st"
    by (auto simp: at_pos_def split: if_splits)
  with vb(1) cell have rs: "map_of (r_start res) p = Some s" by auto
  from br have "r_rev res = store st ! v_bestRev st"
    by (auto simp: at_pos_def split: if_splits)
  with vb(2) cell have rr: "map_of (r_rev res) p = Some r" by auto
  from i pin run cell(1,2) vs rs rr show ?thesis by auto
qed

section \<open>A worked example\<close>

lemma replicate4: "replicate 4 x = [x, x, x, x]"
  by (simp add: numeral_eq_Suc)

lemma ex_formGLM_testX:
  "formGLM_testX ex_fullX 0 = Some ex_testX_a"
  "formGLM_testX ex_fullX 1 = Some ex_testX_b"
  by (simp_all add: formGLM_testX_def upt_MWID ex_fullX_def at_pos_def ex_X_def py_slice_def
      py_bound_def ex_testX_a_def ex_testX_b_def replicate4)

lemma py_range_2: "py_range 2 = [0, 1]" and py_range_1: "py_range 1 = [0]"
  by (simp_all add: py_range_def upt_rec)

lemmas ex_defs = py_get_def ex_pwms_def ex_edges_def candidates_def py_range_2 py_range_1
    formGLM_testW_def oriented_rows_def upt_MWID computeGLMLoglikelihood_def at_pos_def ex_ext_def np_log_def np_dot_def
    ex_uniform_def ex_skew_def py_round_def SAMPLE_def ex_testX_a_def ex_testX_b_def replicate4 decode_def ex_model_def

lemma ex_sample_a:
  "sampleStartPosGLM (ex_ext k) ex_testX_a [''a'', ''b''] 0 ex_pwms ex_edges ex_model g
    = Some ((if g = k then 1 else 0, 0, [1, 1 / 4, 1 / 4, 1]), Suc g)"
  by (simp add: sampleStartPosGLM_def ex_defs)

lemma ex_sample_b:
  "sampleStartPosGLM (ex_ext k) ex_testX_b [''a'', ''b''] 1 ex_pwms ex_edges ex_model g
    = Some ((0, if g = k then 1 else 0, [1, 1]), Suc g)"
  by (simp add: sampleStartPosGLM_def ex_defs)

lemma ex_full_loglik:
  "full_loglik (ex_ext k) ex_fullX [''a'', ''b''] ex_pwms [(''a'', 0), (''b'', 0)]
     [(''a'', 0), (''b'', y)] (Some ex_model) = Some (1200 * ln (1 / 4))"
  "full_loglik (ex_ext k) ex_fullX [''a'', ''b''] ex_pwms [(''a'', 1), (''b'', 0)]
     [(''a'', 0), (''b'', y)] (Some ex_model) = Some (1201 * ln (1 / 4))"
  by (simp_all add: full_loglik_def ex_formGLM_testX ex_defs)

lemma ex_trainX:
  "formGLM_trainX ex_fullX 0 3 = Some ex_testX_b"
  "formGLM_trainX ex_fullX 4 7 = Some ex_testX_a"
  by (simp_all add: formGLM_trainX_def upt_MWID ex_fullX_def at_pos_def ex_X_def delete_rows_def
      ex_testX_a_def ex_testX_b_def replicate4)

lemma ex_trainProteins:
  "trainProteins [''a'', ''b''] 0 3 = [''b'']"
  "trainProteins [''a'', ''b''] 4 7 = [''a'']"
  by (simp_all add: trainProteins_def py_slice_to_def py_slice_from_def py_bound_def)

lemma ex_trainW:
  "formGLM_trainW (ex_ext k) ex_pwms [''b''] [(''a'', x), (''b'', 0)] [(''a'', 0), (''b'', y)]
     ''classifier'' = Some (ex_W ex_uniform)"
  "formGLM_trainW (ex_ext k) ex_pwms [''a''] [(''a'', 0), (''b'', 0)] [(''a'', 0), (''b'', y)]
     ''classifier'' = Some (ex_W ex_uniform)"
  "formGLM_trainW (ex_ext k) ex_pwms [''a''] [(''a'', 1), (''b'', 0)] [(''a'', 0), (''b'', y)]
     ''classifier'' = Some (ex_W ex_skew)"
  by (simp_all add: formGLM_trainW_def ex_defs ex_W_def)

lemma ex_createGLMModel:
  "createGLMModel (ex_ext k) ex_testX_a (formGLM_Y [p]) (ex_W r) = Some ex_model"
  "createGLMModel (ex_ext k) ex_testX_b (formGLM_Y [p]) (ex_W r) = Some ex_model"
  by (simp_all add: createGLMModel_def upt_MWID at_pos_def ex_ext_def ex_model_def ex_testX_a_def
      ex_testX_b_def formGLM_Y_def ex_W_def)

lemmas ex_steps = ex_obsGrps_def ex_grpInd_def ex_trainX ex_trainProteins ex_trainW
        ex_createGLMModel ex_formGLM_testX ex_sample_a ex_sample_b at_pos_def

lemma ex_sweep_groups:
  assumes "Suc g \<noteq> k"
  shows "sweep_groups (ex_ext k) ex_pwms ex_edges [''a'', ''b''] ex_fullX ex_grpInd Map.empty 0 1
           ex_obsGrps ([[(''a'', 0), (''b'', 0)], [(''a'', 0), (''b'', 0)], c2, c3], 0, m, g)
         = Some ([[(''a'', if g = k then 1 else 0), (''b'', 0)], [(''a'', 0), (''b'', 0)], c2, c3],
                 if g = k then 1 else 0, Some ex_model, Suc (Suc g))"
proof (cases "g = k")
  case True
  with assms show ?thesis by (simp add: ex_steps)
next
  case False
  with assms show ?thesis by (simp add: ex_steps)
qed

lemma ex_ln_bounds: "- 3 \<le> ln (1 / 4 :: real)" "ln (1 / 4 :: real) < - 1"
proof -
  have "ln (4 :: real) \<le> 4 - 1" by (rule ln_le_minus_one) simp
  then show "- 3 \<le> ln (1 / 4 :: real)" by (simp add: ln_div)
  have "exp (1 :: real) < 4" using exp_le by linarith
  then have "ln (exp (1 :: real)) < ln 4" by (subst ln_less_cancel_iff) simp_all
  then have "1 < ln (4 :: real)" by simp
  then show "ln (1 / 4 :: real) < - 1" by (simp add: ln_div)
qed

lemmas ex_sweep_groups_n = ex_sweep_groups [simplified]

lemma ex_sweep:
  assumes "Suc g \<noteq> k"
  shows "sweep (ex_ext k) ex_pwms ex_edges [''a'', ''b''] ex_obsGrps ex_fullX ex_grpInd Map.empty
           \<lparr>store = [[(''a'', 0), (''b'', 0)], [(''a'', 0), (''b'', 0)], c2, c3],
            v_start = 0, v_rev = 1, v_bestStart = vb, v_bestRev = vr, bestll = bl,
            llsAll = h, nIters = n, converged = c, model = m, rng = g\<rparr>
         = Some \<lparr>store = [[(''a'', if g = k then 1 else 0), (''b'', 0)],
                          [(''a'', 0), (''b'', 0)], c2, c3],
                 v_start = 0, v_rev = 1,
                 v_bestStart = (if (if g = k then 1201 else 1200) * ln (1 / 4) > bl then 0 else vb),
                 v_bestRev = (if (if g = k then 1201 else 1200) * ln (1 / 4) > bl then 1 else vr),
                 bestll = (if (if g = k then 1201 else 1200) * ln (1 / 4) > bl
                           then (if g = k then 1201 else 1200) * ln (1 / 4) else bl),
                 llsAll = h @ [(if g = k then 1201 else 1200) * ln (1 / 4)],
                 nIters = n + 1,
                 converged = (if nIterLTtol ((if g = k then 1201 else 1200) * ln (1 / 4)) h = 5
                              then True else c),
                 model = Some ex_model, rng = Suc (Suc g)\<rparr>"
proof (cases "g = k")
  case True
  then show ?thesis
    using assms by (simp add: sweep_def ex_sweep_groups_n ex_full_loglik at_pos_def)
next
  case False
  then show ?thesis
    using assms by (simp add: sweep_def ex_sweep_groups_n ex_full_loglik at_pos_def)
qed

lemma ex_initStarts:
  "initStarts (ex_ext k) [''a'', ''b''] ex_pwms (int (length ex_edges)) Map.empty (seed (ex_ext k) None)
     = Some ([(''a'', 0), (''b'', 0)], [(''a'', 0), (''b'', 0)], 4)"
  by (simp add: initStarts_def ex_ext_def ex_pwms_def ex_edges_def)

lemma ex_form_model:
  "form_model (ex_ext k) ex_fullX [''a'', ''b''] ex_pwms [(''a'', 0), (''b'', 0)]
     [(''a'', 0), (''b'', y)] = Some ex_model"
  "form_model (ex_ext k) ex_fullX [''a'', ''b''] ex_pwms [(''a'', 1), (''b'', 0)]
     [(''a'', 0), (''b'', y)] = Some ex_model"
  by (simp_all add: form_model_def formGLM_trainW_def createGLMModel_def formGLM_Y_def ex_fullX_def
      ex_defs)

lemma ex_computePC_agree:
  "computePC_agree (ex_ext k) ex_model [''a'', ''b''] ex_pwms [(''a'', 0), (''b'', 0)]
     [(''a'', 0), (''b'', y)] ex_fullX = Some [0, 0, 0, 0, 0, 0]"
  "computePC_agree (ex_ext k) ex_model [''a'', ''b''] ex_pwms [(''a'', 1), (''b'', 0)]
     [(''a'', 0), (''b'', y)] ex_fullX = Some [0, 0, 0, 0, 0, 0]"
  by (simp_all add: computePC_agree_def pred_and_true_def ex_formGLM_testX ex_defs)

lemma ex_compute_MSE:
  "compute_MSE (ex_ext k) ex_model [''a'', ''b''] ex_pwms [(''a'', 0), (''b'', 0)]
     [(''a'', 0), (''b'', y)] ex_fullX = Some [0, 0, 0, 0, 0, 0]"
  "compute_MSE (ex_ext k) ex_model [''a'', ''b''] ex_pwms [(''a'', 1), (''b'', 0)]
     [(''a'', 0), (''b'', y)] ex_fullX
     = Some [0, 0, 0, 0, 0, (3 * (61 / 250)\<^sup>2 + (183 / 250)\<^sup>2) / 8]"
  by (simp_all add: compute_MSE_def pred_and_true_def ex_formGLM_testX ex_defs)

lemma loop_step:
  assumes "nIters st < maxIters" and "\<not> converged st"
    and "sweep ext pwms edges uniqueProteins obsGrps fullX grpInd fixedStarts st = Some st'"
  shows "gibbs_loop ext pwms edges uniqueProteins obsGrps fullX grpInd fixedStarts maxIters st
         = gibbs_loop ext pwms edges uniqueProteins obsGrps fullX grpInd fixedStarts maxIters st'"
  using assms by (subst gibbs_loop.simps) simp

lemma loop_stop:
  assumes "\<not> nIters st < maxIters \<or> converged st"
  shows "gibbs_loop ext pwms edges uniqueProteins obsGrps fullX grpInd fixedStarts maxIters st
         = Some st"
  using assms by (subst gibbs_loop.simps) auto

lemma ex_st_fields:
  "nIters (ex_st sa vb vr bl h n c m g) = n" "converged (ex_st sa vb vr bl h n c m g) = c"
  by (simp_all add: ex_st_def)

lemma ex_loop_step:
  assumes "Suc g \<noteq> k" and "n < maxIters"
  shows "gibbs_loop (ex_ext k) ex_pwms ex_edges [''a'', ''b''] ex_obsGrps ex_fullX ex_grpInd
           Map.empty maxIters (ex_st 0 vb vr bl h n False m g)
         = gibbs_loop (ex_ext k) ex_pwms ex_edges [''a'', ''b''] ex_obsGrps ex_fullX ex_grpInd
           Map.empty maxIters
           (ex_st (if g = k then 1 else 0)
              (if (if g = k then 1201 else 1200) * ln (1 / 4) > bl then 0 else vb)
              (if (if g = k then 1201 else 1200) * ln (1 / 4) > bl then 1 else vr)
              (if (if g = k then 1201 else 1200) * ln (1 / 4) > bl
               then (if g = k then 1201 else 1200) * ln (1 / 4) else bl)
              (h @ [(if g = k then 1201 else 1200) * ln (1 / 4)]) (n + 1)
              (nIterLTtol ((if g = k then 1201 else 1200) * ln (1 / 4)) h = 5)
              (Some ex_model) (Suc (Suc g)))"
proof (rule loop_step)
  show "nIters (ex_st 0 vb vr bl h n False m g) < maxIters"
    using assms(2) by (simp add: ex_st_fields)
  show "\<not> converged (ex_st 0 vb vr bl h n False m g)"
    by (simp add: ex_st_fields)
  show "sweep (ex_ext k) ex_pwms ex_edges [''a'', ''b''] ex_obsGrps ex_fullX ex_grpInd Map.empty
          (ex_st 0 vb vr bl h n False m g)
        = Some (ex_st (if g = k then 1 else 0)
              (if (if g = k then 1201 else 1200) * ln (1 / 4) > bl then 0 else vb)
              (if (if g = k then 1201 else 1200) * ln (1 / 4) > bl then 1 else vr)
              (if (if g = k then 1201 else 1200) * ln (1 / 4) > bl
               then (if g = k then 1201 else 1200) * ln (1 / 4) else bl)
              (h @ [(if g = k then 1201 else 1200) * ln (1 / 4)]) (n + 1)
              (nIterLTtol ((if g = k then 1201 else 1200) * ln (1 / 4)) h = 5)
              (Some ex_model) (Suc (Suc g)))"
    unfolding ex_st_def ex_sweep [OF assms(1)] by simp
qed

lemma ex_loop_stop:
  assumes "\<not> n < maxIters \<or> c"
  shows "gibbs_loop (ex_ext k) ex_pwms ex_edges [''a'', ''b''] ex_obsGrps ex_fullX ex_grpInd
           Map.empty maxIters (ex_st sa vb vr bl h n c m g)
         = Some (ex_st sa vb vr bl h n c m g)"
  using assms by (intro loop_stop) (simp add: ex_st_fields)

lemma all_lt_5: "(\<forall>i < 5. P i) \<longleftrightarrow> P 0 \<and> P 1 \<and> P 2 \<and> P 3 \<and> P (4 :: nat)"
proof -
  have "i < 5 \<longleftrightarrow> i = 0 \<or> i = 1 \<or> i = 2 \<or> i = 3 \<or> i = 4" for i :: nat by arith
  then show ?thesis by auto
qed

lemmas ex_loop = ex_loop_step ex_loop_stop nIterLTtol_five all_lt_5

lemma ex_loop_A:
  "gibbs_loop (ex_ext 6) ex_pwms ex_edges [''a'', ''b''] ex_obsGrps ex_fullX ex_grpInd Map.empty 2
     (ex_st 0 2 3 (- (10 ^ 30)) [- (10 ^ 30)] 0 False None 4)
   = Some (ex_st 1 0 1 (1200 * ln (1 / 4)) [- (10 ^ 30), 1200 * ln (1 / 4), 1201 * ln (1 / 4)]
             2 False (Some ex_model) 8)"
  using ex_ln_bounds by (simp add: ex_loop)

lemma ex_loop_A1:
  "gibbs_loop (ex_ext 6) ex_pwms ex_edges [''a'', ''b''] ex_obsGrps ex_fullX ex_grpInd Map.empty 1
     (ex_st 0 2 3 (- (10 ^ 30)) [- (10 ^ 30)] 0 False None 4)
   = Some (ex_st 0 0 1 (1200 * ln (1 / 4)) [- (10 ^ 30), 1200 * ln (1 / 4)]
             1 False (Some ex_model) 6)"
  using ex_ln_bounds by (simp add: ex_loop)

lemma ex_loop_B:
  "gibbs_loop (ex_ext 4) ex_pwms ex_edges [''a'', ''b''] ex_obsGrps ex_fullX ex_grpInd Map.empty 1
     (ex_st 0 2 3 (- (10 ^ 30)) [- (10 ^ 30)] 0 False None 4)
   = Some (ex_st 1 0 1 (1201 * ln (1 / 4)) [- (10 ^ 30), 1201 * ln (1 / 4)]
             1 False (Some ex_model) 6)"
  using ex_ln_bounds by (simp add: ex_loop)

lemma ex_loop_C:
  "gibbs_loop (ex_ext 0) ex_pwms ex_edges [''a'', ''b''] ex_obsGrps ex_fullX ex_grpInd Map.empty 10
     (ex_st 0 2 3 (- (10 ^ 30)) [- (10 ^ 30)] 0 False None 4)
   = Some (ex_st 0 0 1 (1200 * ln (1 / 4))
             [- (10 ^ 30), 1200 * ln (1 / 4), 1200 * ln (1 / 4), 1200 * ln (1 / 4),
              1200 * ln (1 / 4), 1200 * ln (1 / 4), 1200 * ln (1 / 4)]
             6 True (Some ex_model) 16)"
  using ex_ln_bounds by (simp add: ex_loop)

lemma ex_loop_C2:
  "gibbs_loop (ex_ext 0) ex_pwms ex_edges [''a'', ''b''] ex_obsGrps ex_fullX ex_grpInd Map.empty 2
     (ex_st 0 2 3 (- (10 ^ 30)) [- (10 ^ 30)] 0 False None 4)
   = Some (ex_st 0 0 1 (1200 * ln (1 / 4))
             [- (10 ^ 30), 1200 * ln (1 / 4), 1200 * ln (1 / 4)]
             2 False (Some ex_model) 8)"
  using ex_ln_bounds by (simp add: ex_loop)

lemmas ex_run_simps = gibbs_run_def ex_initStarts Option.bind.simps prod.case ex_form_model
      ex_computePC_agree ex_compute_MSE ex_st_def

lemma ex_run_A:
  "gibbs_run (ex_ext 6) ex_pwms ex_edges [''a'', ''b''] ex_obsGrps ex_fullX ex_grpInd 2 None Map.empty
   = Some ([0, 0, 0, 0, 0, 0], [0, 0, 0, 0, 0, 0],
           ex_st 1 0 1 (1200 * ln (1 / 4)) [- (10 ^ 30), 1200 * ln (1 / 4), 1201 * ln (1 / 4)]
             2 False (Some ex_model) 8)"
  by (simp only: ex_run_simps ex_loop_A [unfolded ex_st_def])

lemma ex_run_A1:
  "gibbs_run (ex_ext 6) ex_pwms ex_edges [''a'', ''b''] ex_obsGrps ex_fullX ex_grpInd 1 None Map.empty
   = Some ([0, 0, 0, 0, 0, 0], [0, 0, 0, 0, 0, 0],
           ex_st 0 0 1 (1200 * ln (1 / 4)) [- (10 ^ 30), 1200 * ln (1 / 4)]
             1 False (Some ex_model) 6)"
  by (simp only: ex_run_simps ex_loop_A1 [unfolded ex_st_def])

lemma ex_run_B:
  "gibbs_run (ex_ext 4) ex_pwms ex_edges [''a'', ''b''] ex_obsGrps ex_fullX ex_grpInd 1 None Map.empty
   = Some ([0, 0, 0, 0, 0, 0], [0, 0, 0, 0, 0, 0],
           ex_st 1 0 1 (1201 * ln (1 / 4)) [- (10 ^ 30), 1201 * ln (1 / 4)]
             1 False (Some ex_model) 6)"
  by (simp only: ex_run_simps ex_loop_B [unfolded ex_st_def])

lemma ex_run_C:
  "gibbs_run (ex_ext 0) ex_pwms ex_edges [''a'', ''b''] ex_obsGrps ex_fullX ex_grpInd 10 None Map.empty
   = Some ([0, 0, 0, 0, 0, 0], [0, 0, 0, 0, 0, 0],
           ex_st 0 0 1 (1200 * ln (1 / 4))
             [- (10 ^ 30), 1200 * ln (1 / 4), 1200 * ln (1 / 4), 1200 * ln (1 / 4),
              1200 * ln (1 / 4), 1200 * ln (1 / 4), 1200 * ln (1 / 4)]
             6 True (Some ex_model) 16)"
  by (simp only: ex_run_simps ex_loop_C [unfolded ex_st_def])

lemma ex_run_C2:
  "gibbs_run (ex_ext 0) ex_pwms ex_edges [''a'', ''b''] ex_obsGrps ex_fullX ex_grpInd 2 None Map.empty
   = Some ([0, 0, 0, 0, 0, 0], [0, 0, 0, 0, 0, 0],
           ex_st 0 0 1 (1200 * ln (1 / 4))
             [- (10 ^ 30), 1200 * ln (1 / 4), 1200 * ln (1 / 4)]
             2 False (Some ex_model) 8)"
  by (simp only: ex_run_simps ex_loop_C2 [unfolded ex_st_def])

lemmas ex_result_simps = gibbsSampleGLM_def ex_st_def at_pos_def ex_form_model
      ex_computePC_agree ex_compute_MSE

lemma ex_result_A:
  "map_option (\<lambda>res. (r_start res, r_rev res, r_ll res))
     (gibbsSampleGLM (ex_ext 6) ex_pwms ex_edges [''a'', ''b''] ex_obsGrps ex_fullX ex_grpInd 2 None
        Map.empty)
   = Some ([(''a'', 1), (''b'', 0)], [(''a'', 0), (''b'', 0)], 1200 * ln (1 / 4))"
  by (simp add: ex_run_A ex_result_simps)

lemma ex_result_A1:
  "map_option (\<lambda>res. (r_start res, r_rev res, r_ll res))
     (gibbsSampleGLM (ex_ext 6) ex_pwms ex_edges [''a'', ''b''] ex_obsGrps ex_fullX ex_grpInd 1 None
        Map.empty)
   = Some ([(''a'', 0), (''b'', 0)], [(''a'', 0), (''b'', 0)], 1200 * ln (1 / 4))"
  by (simp add: ex_run_A1 ex_result_simps)

lemma ex_result_B:
  "map_option (\<lambda>res. (r_start res, r_rev res, r_ll res))
     (gibbsSampleGLM (ex_ext 4) ex_pwms ex_edges [''a'', ''b''] ex_obsGrps ex_fullX ex_grpInd 1 None
        Map.empty)
   = Some ([(''a'', 1), (''b'', 0)], [(''a'', 0), (''b'', 0)], 1201 * ln (1 / 4))"
  by (simp add: ex_run_B ex_result_simps)

lemma ex_spec_initial_loglik:
  "spec_initial_loglik (ex_ext k) ex_pwms ex_edges [''a'', ''b''] ex_fullX None Map.empty
   = Some (1200 * ln (1 / 4))"
  by (simp only: spec_initial_loglik_def ex_initStarts Option.bind.simps prod.case ex_form_model
      ex_full_loglik)

lemma ex_initStarts_D:
  "initStarts (ex_ext k) [''a'', ''b''] ex_pwms (int (length ex_edges)) ex_fixed (seed (ex_ext k) None)
     = Some ([(''a'', 0), (''b'', 0)], [(''a'', 0), (''b'', 1)], 2)"
  by (simp add: initStarts_def ex_ext_def ex_pwms_def ex_edges_def ex_fixed_def)

lemma ex_sweep_groups_D:
  "sweep_groups (ex_ext 2) ex_pwms ex_edges [''a'', ''b''] ex_fullX ex_grpInd ex_fixed 0 1
     ex_obsGrps ([[(''a'', 0), (''b'', 0)], [(''a'', 0), (''b'', 1)], c2, c3], 0, m, 2)
   = Some ([[(''a'', 1), (''b'', 0)], [(''a'', 0), (''b'', 1)], c2, c3], 1, Some ex_model, 3)"
  by (simp add: ex_steps ex_fixed_def)

lemma ex_loop_D:
  "gibbs_loop (ex_ext 2) ex_pwms ex_edges [''a'', ''b''] ex_obsGrps ex_fullX ex_grpInd ex_fixed 1
     \<lparr>store = [[(''a'', 0), (''b'', 0)], [(''a'', 0), (''b'', 1)],
               [(''a'', 0), (''b'', 0)], [(''a'', 0), (''b'', 1)]],
      v_start = 0, v_rev = 1, v_bestStart = 2, v_bestRev = 3, bestll = - (10 ^ 30),
      llsAll = [- (10 ^ 30)], nIters = 0, converged = False, model = None, rng = 2\<rparr>
   = Some \<lparr>store = [[(''a'', 1), (''b'', 0)], [(''a'', 0), (''b'', 1)],
                    [(''a'', 0), (''b'', 0)], [(''a'', 0), (''b'', 1)]],
           v_start = 0, v_rev = 1, v_bestStart = 0, v_bestRev = 1, bestll = 1201 * ln (1 / 4),
           llsAll = [- (10 ^ 30), 1201 * ln (1 / 4)], nIters = 1, converged = False,
           model = Some ex_model, rng = 3\<rparr>"
  using ex_ln_bounds
  by (subst gibbs_loop.simps, simp add: sweep_def ex_sweep_groups_D [simplified] ex_full_loglik
      at_pos_def nIterLTtol_five, subst gibbs_loop.simps, simp)

lemma ex_result_D:
  "map_option (\<lambda>res. (r_start res, r_rev res))
     (gibbsSampleGLM (ex_ext 2) ex_pwms ex_edges [''a'', ''b''] ex_obsGrps ex_fullX ex_grpInd 1 None
        ex_fixed)
   = Some ([(''a'', 1), (''b'', 0)], [(''a'', 0), (''b'', 1)])"
proof -
  have "gibbs_run (ex_ext 2) ex_pwms ex_edges [''a'', ''b''] ex_obsGrps ex_fullX ex_grpInd 1 None
          ex_fixed
        = Some ([0, 0, 0, 0, 0, 0], [0, 0, 0, 0, 0, 0],
            \<lparr>store = [[(''a'', 1), (''b'', 0)], [(''a'', 0), (''b'', 1)],
                    [(''a'', 0), (''b'', 0)], [(''a'', 0), (''b'', 1)]],
           v_start = 0, v_rev = 1, v_bestStart = 0, v_bestRev = 1, bestll = 1201 * ln (1 / 4),
           llsAll = [- (10 ^ 30), 1201 * ln (1 / 4)], nIters = 1, converged = False,
           model = Some ex_model, rng = 3\<rparr>)"
    by (simp only: gibbs_run_def ex_initStarts_D Option.bind.simps prod.case ex_form_model
        ex_computePC_agree ex_compute_MSE ex_loop_D)
  then show ?thesis by (simp add: ex_result_simps)
qed


text \<open>
  Claim C1 at a failing input.  With the example externals drawing index 1 at draw
  6, the chain capped at one sweep returns the registers of sweep 1 (\<open>start[a] =
  0\<close>) with their log-likelihood \<open>1200 * ln (1/4)\<close>, the best of the run.  Capped at two sweeps, the
  second sweep moves \<open>a\<close> to start 1 and scores the lower \<open>1201 * ln (1/4)\<close>; the
  chain still returns the log-likelihood of sweep 1, but with \<open>start[a] = 1\<close>: line
  1283 stored a reference to the live dictionary, which sweep 2 then changed.
\<close>

theorem best_assignment_aliased:
  "map_option r_start
     (gibbsSampleGLM (ex_ext 6) ex_pwms ex_edges [''a'', ''b''] ex_obsGrps ex_fullX ex_grpInd 1 None
        Map.empty) = Some [(''a'', 0), (''b'', 0)] \<and>
   map_option r_ll
     (gibbsSampleGLM (ex_ext 6) ex_pwms ex_edges [''a'', ''b''] ex_obsGrps ex_fullX ex_grpInd 1 None
        Map.empty) = Some (1200 * ln (1 / 4)) \<and>
   map_option r_start
     (gibbsSampleGLM (ex_ext 6) ex_pwms ex_edges [''a'', ''b''] ex_obsGrps ex_fullX ex_grpInd 2 None
        Map.empty) = Some [(''a'', 1), (''b'', 0)] \<and>
   map_option r_rev
     (gibbsSampleGLM (ex_ext 6) ex_pwms ex_edges [''a'', ''b''] ex_obsGrps ex_fullX ex_grpInd 2 None
        Map.empty) = Some [(''a'', 0), (''b'', 0)] \<and>
   map_option r_ll
     (gibbsSampleGLM (ex_ext 6) ex_pwms ex_edges [''a'', ''b''] ex_obsGrps ex_fullX ex_grpInd 2 None
        Map.empty) = Some (1200 * ln (1 / 4)) \<and>
   gibbs_run (ex_ext 6) ex_pwms ex_edges [''a'', ''b''] ex_obsGrps ex_fullX ex_grpInd 2 None
     Map.empty
   = Some ([0, 0, 0, 0, 0, 0], [0, 0, 0, 0, 0, 0],
           ex_st 1 0 1 (1200 * ln (1 / 4))
             [- (10 ^ 30), 1200 * ln (1 / 4), 1201 * ln (1 / 4)] 2 False (Some ex_model) 8) \<and>
   1201 * ln (1 / 4 :: real) < 1200 * ln (1 / 4)"
proof -
  have p: "map_option r_start x = map_option fst (map_option (\<lambda>res. (r_start res, r_rev res, r_ll res)) x)"
    "map_option r_rev x = map_option (fst \<circ> snd) (map_option (\<lambda>res. (r_start res, r_rev res, r_ll res)) x)"
    "map_option r_ll x = map_option (snd \<circ> snd) (map_option (\<lambda>res. (r_start res, r_rev res, r_ll res)) x)"
    for x :: "unit chain_result option"
    by (simp_all add: option.map_comp comp_def)
  show ?thesis
    unfolding p ex_result_A ex_result_A1 ex_run_A using ex_ln_bounds by simp
qed

text \<open>
  Five equal values after the sentinel and a sixth equal one: the sweep converges.
\<close>

theorem converged_iff_witness:
  "\<exists>st'. sweep (ex_ext 0) ex_pwms ex_edges [''a'', ''b''] ex_obsGrps ex_fullX ex_grpInd Map.empty
            (ex_st 0 0 1 (1200 * ln (1 / 4))
               [- (10 ^ 30), 1200 * ln (1 / 4), 1200 * ln (1 / 4), 1200 * ln (1 / 4),
                1200 * ln (1 / 4), 1200 * ln (1 / 4)] 5 False (Some ex_model) 14) = Some st' \<and>
          llsAll st' = [- (10 ^ 30), 1200 * ln (1 / 4), 1200 * ln (1 / 4), 1200 * ln (1 / 4),
                1200 * ln (1 / 4), 1200 * ln (1 / 4), 1200 * ln (1 / 4)] \<and>
          converged st'"
proof -
  let ?h = "[- (10 ^ 30), 1200 * ln (1 / 4), 1200 * ln (1 / 4), 1200 * ln (1 / 4),
             1200 * ln (1 / 4), 1200 * ln (1 / 4 :: real)]"
  let ?st = "ex_st 0 0 1 (1200 * ln (1 / 4)) ?h 5 False (Some ex_model) 14"
  have "\<exists>st'. sweep (ex_ext 0) ex_pwms ex_edges [''a'', ''b''] ex_obsGrps ex_fullX ex_grpInd
               Map.empty ?st = Some st' \<and> llsAll st' = ?h @ [1200 * ln (1 / 4)]"
    unfolding ex_st_def by (subst ex_sweep) simp_all
  then obtain st' where
    s: "sweep (ex_ext 0) ex_pwms ex_edges [''a'', ''b''] ex_obsGrps ex_fullX ex_grpInd Map.empty ?st
          = Some st'" and
    l: "llsAll st' = ?h @ [1200 * ln (1 / 4)]" by blast
  have c: "\<not> converged ?st" by (simp add: ex_st_fields)
  have h: "llsAll ?st = ?h" by (simp add: ex_st_def)
  from converged_iff [OF s c] have "converged st'"
    unfolding h l by simp
  with s l show ?thesis by simp
qed

text \<open>
  With only the sentinel recorded, a log-likelihood equal to it is within the
  tolerance of every recorded value and the test still counts fewer than 5; and
  the example chain, capped at 2 sweeps, has two equal sweep values and is not
  converged.
\<close>

theorem converged_iff_counterexample:
  "nIterLTtol (- (10 ^ 30)) [- (10 ^ 30)] \<noteq> 5 \<and> \<bar>- (10 ^ 30) - (- (10 ^ 30))\<bar> < (1 :: real) \<and>
   gibbs_run (ex_ext 0) ex_pwms ex_edges [''a'', ''b''] ex_obsGrps ex_fullX ex_grpInd 2 None
     Map.empty
   = Some ([0, 0, 0, 0, 0, 0], [0, 0, 0, 0, 0, 0],
           ex_st 0 0 1 (1200 * ln (1 / 4))
             [- (10 ^ 30), 1200 * ln (1 / 4), 1200 * ln (1 / 4)] 2 False (Some ex_model) 8) \<and>
   \<not> converged (ex_st 0 0 1 (1200 * ln (1 / 4))
                  [- (10 ^ 30), 1200 * ln (1 / 4), 1200 * ln (1 / 4)] 2 False (Some ex_model) 8)"
  unfolding ex_run_C2 by (simp add: nIterLTtol_five ex_st_fields)

text \<open>
  The example chain with one sweep.
\<close>

theorem returned_ll_is_maximum_witness:
  "\<exists>res. gibbsSampleGLM (ex_ext 4) ex_pwms ex_edges [''a'', ''b''] ex_obsGrps ex_fullX ex_grpInd 1
            None Map.empty = Some res \<and>
          - (10 ^ 30) \<le> r_ll res \<and>
          (\<exists>ipa im st.
             gibbs_run (ex_ext 4) ex_pwms ex_edges [''a'', ''b''] ex_obsGrps ex_fullX ex_grpInd 1
               None Map.empty = Some (ipa, im, st) \<and> r_ll res = Max (set (llsAll st)))"
proof -
  from ex_result_B obtain res where
    r: "gibbsSampleGLM (ex_ext 4) ex_pwms ex_edges [''a'', ''b''] ex_obsGrps ex_fullX ex_grpInd 1
          None Map.empty = Some res" by auto
  from returned_ll_is_maximum [OF r] r show ?thesis by blast
qed

text \<open>
  With index 1 drawn at draw 4, the only sweep scores \<open>1201 * ln (1/4)\<close>, which the
  chain returns; the initial registers score \<open>1200 * ln (1/4)\<close>, which is larger.
\<close>

theorem returned_ll_is_maximum_counterexample:
  "map_option r_ll
     (gibbsSampleGLM (ex_ext 4) ex_pwms ex_edges [''a'', ''b''] ex_obsGrps ex_fullX ex_grpInd 1 None
        Map.empty) = Some (1201 * ln (1 / 4)) \<and>
   spec_initial_loglik (ex_ext 4) ex_pwms ex_edges [''a'', ''b''] ex_fullX None Map.empty
     = Some (1200 * ln (1 / 4)) \<and>
   1201 * ln (1 / 4 :: real) < 1200 * ln (1 / 4)"
proof -
  from ex_result_B have
    "map_option r_ll
     (gibbsSampleGLM (ex_ext 4) ex_pwms ex_edges [''a'', ''b''] ex_obsGrps ex_fullX ex_grpInd 1 None
        Map.empty) = Some (1201 * ln (1 / 4))"
    by (auto simp: map_option_case split: option.splits)
  then show ?thesis using ex_ln_bounds by (simp add: ex_spec_initial_loglik)
qed

text \<open>
  The example chain with constant log-likelihood stops with sweep 6.
\<close>

theorem sweeps_bounded_witness:
  "\<exists>ipa im st.
     gibbs_run (ex_ext 0) ex_pwms ex_edges [''a'', ''b''] ex_obsGrps ex_fullX ex_grpInd 10 None
       Map.empty = Some (ipa, im, st) \<and>
     nIters st \<le> max 0 10 \<and> int (length (llsAll st)) = nIters st + 1 \<and>
     (6::nat) < length (llsAll st) \<and>
     (\<forall>i \<in> {1..5}. \<bar>llsAll st ! 6 - llsAll st ! (6 - i)\<bar> < 1) \<and> nIters st = 6"
proof -
  note r = ex_run_C
  let ?st = "ex_st 0 0 1 (1200 * ln (1 / 4))
             [- (10 ^ 30), 1200 * ln (1 / 4), 1200 * ln (1 / 4), 1200 * ln (1 / 4),
              1200 * ln (1 / 4), 1200 * ln (1 / 4), 1200 * ln (1 / 4)]
             6 True (Some ex_model) 16"
  have h: "llsAll ?st = [- (10 ^ 30), 1200 * ln (1 / 4), 1200 * ln (1 / 4), 1200 * ln (1 / 4),
              1200 * ln (1 / 4), 1200 * ln (1 / 4), 1200 * ln (1 / 4)]"
    by (simp add: ex_st_def)
  have c: "\<forall>i \<in> {1..5}. \<bar>llsAll ?st ! 6 - llsAll ?st ! (6 - i)\<bar> < 1"
  proof
    fix i :: nat assume "i \<in> {1..5}"
    then have "1 \<le> i \<and> i \<le> 5" by simp
    then have "i = 1 \<or> i = 2 \<or> i = 3 \<or> i = 4 \<or> i = 5" by arith
    then show "\<bar>llsAll ?st ! 6 - llsAll ?st ! (6 - i)\<bar> < 1"
      unfolding h by auto
  qed
  have l: "(6::nat) < length (llsAll ?st)" unfolding h by simp
  note sb = sweeps_bounded [OF r]
  from sb have b: "nIters ?st \<le> max 0 10" "int (length (llsAll ?st)) = nIters ?st + 1"
    by blast+
  from sb have "5 \<le> (6::nat) \<and> 6 < length (llsAll ?st) \<and>
      (\<forall>i \<in> {1..5}. \<bar>llsAll ?st ! 6 - llsAll ?st ! (6 - i)\<bar> < 1) \<longrightarrow> nIters ?st = int 6"
    by blast
  with c l have n: "nIters ?st = 6" by simp
  from r b c l n show ?thesis by blast
qed

text \<open>
  The log-likelihood is the same in sweeps 1 to 5 (the history after the sentinel),
  and the chain runs a sixth sweep: the final state has \<open>nIters = 6\<close>.
\<close>

theorem sweeps_bounded_counterexample:
  "gibbs_run (ex_ext 0) ex_pwms ex_edges [''a'', ''b''] ex_obsGrps ex_fullX ex_grpInd 10 None
     Map.empty
   = Some ([0, 0, 0, 0, 0, 0], [0, 0, 0, 0, 0, 0],
           ex_st 0 0 1 (1200 * ln (1 / 4))
             [- (10 ^ 30), 1200 * ln (1 / 4), 1200 * ln (1 / 4), 1200 * ln (1 / 4),
              1200 * ln (1 / 4), 1200 * ln (1 / 4), 1200 * ln (1 / 4)]
             6 True (Some ex_model) 16) \<and>
   nIters (ex_st 0 0 1 (1200 * ln (1 / 4))
             [- (10 ^ 30), 1200 * ln (1 / 4), 1200 * ln (1 / 4), 1200 * ln (1 / 4),
              1200 * ln (1 / 4), 1200 * ln (1 / 4), 1200 * ln (1 / 4)]
             6 True (Some ex_model) (16 :: nat)) = 6"
  unfolding ex_run_C by (simp add: ex_st_fields)

text \<open>
  With \<open>b\<close> pinned, the sweep moves \<open>a\<close> and leaves \<open>b\<close> at (0, 1).
\<close>

theorem pinned_registers_kept_witness:
  "\<exists>res. gibbsSampleGLM (ex_ext 2) ex_pwms ex_edges [''a'', ''b''] ex_obsGrps ex_fullX ex_grpInd 1
            None ex_fixed = Some res \<and>
          ex_fixed ''b'' = Some (0, 1) \<and> ''b'' \<in> set [''a'', ''b''] \<and>
          map_of (r_start res) ''b'' = Some 0 \<and> map_of (r_rev res) ''b'' = Some 1 \<and>
          map_of (r_start res) ''a'' = Some 1"
proof -
  from ex_result_D obtain res where
    r: "gibbsSampleGLM (ex_ext 2) ex_pwms ex_edges [''a'', ''b''] ex_obsGrps ex_fullX ex_grpInd 1
          None ex_fixed = Some res" and
    a: "r_start res = [(''a'', 1), (''b'', 0)]" by auto
  have f: "ex_fixed ''b'' = Some (0, 1)" by (simp add: ex_fixed_def)
  have m: "''b'' \<in> set [''a'', ''b'']" by simp
  from pinned_registers_kept [OF r f m] r f m a show ?thesis by simp
qed

text \<open>
  Both example proteins at register (0, 0).
\<close>

theorem trainW_normalised_witness:
  "those (map (oriented_rows (ex_ext 0) ex_pwms [(''a'', 0), (''b'', 0)] [(''a'', 0), (''b'', 0)])
            [''a'', ''b''])
     = Some [[ex_uniform, ex_uniform, ex_uniform, ex_uniform, ex_uniform, ex_uniform],
             [ex_uniform, ex_uniform, ex_uniform, ex_uniform, ex_uniform, ex_uniform]] \<and>
   (\<exists>W. formGLM_trainW (ex_ext 0) ex_pwms [''a'', ''b''] [(''a'', 0), (''b'', 0)]
           [(''a'', 0), (''b'', 0)] ''classifier'' = Some W \<and> length W = MWID \<and>
        (\<forall>j < MWID. \<exists>ws. W ! j = Classifier ws \<and> sum_list ws = 1))"
proof -
  let ?w = "[[ex_uniform, ex_uniform, ex_uniform, ex_uniform, ex_uniform, ex_uniform],
             [ex_uniform, ex_uniform, ex_uniform, ex_uniform, ex_uniform, ex_uniform]]"
  have t: "those (map (oriented_rows (ex_ext 0) ex_pwms [(''a'', 0), (''b'', 0)]
                    [(''a'', 0), (''b'', 0)]) [''a'', ''b'']) = Some ?w"
    by (simp add: oriented_rows_def ex_pwms_def upt_MWID py_get_def)
  have n: "[''a'', ''b''] \<noteq> ([] :: protein list)" by simp
  have j: "j < MWID \<longleftrightarrow> j = 0 \<or> j = 1 \<or> j = 2 \<or> j = 3 \<or> j = 4 \<or> j = 5" for j
    unfolding MWID_def by arith
  have p: "\<forall>j < MWID. 0 < sum_list (concat (map (\<lambda>w. w ! j) ?w))"
    unfolding j by (auto simp: ex_uniform_def)
  from trainW_normalised [OF t n p] t show ?thesis by blast
qed

end
